theory Spec2Isabelle
  imports Main "HOL-Library.Word"
begin

unbundle bit_operations_syntax

section \<open>Machine types and error codes\<close>

text \<open>
  Bytes, FourCCs and raw sizes are fixed-width words.  Values of C type \<open>int64_t\<close>
  (offsets and box sizes) are mathematical integers: the only place where a 64-bit pattern
  is built from bytes is the extended box size, which is read as two's complement with
  \<open>sint\<close>.  The \<open>data_size\<close> of a box header is reduced to the range of \<open>int64_t\<close>
  (\<open>wrap_int64\<close> below); signed overflow of the arithmetic on offsets is not modelled.
  Heap allocation is taken to succeed, except in \<open>mp4_tags_parse_ilst\<close>, where the
  outcome of its two \<open>calloc\<close> calls is a parameter.
\<close>

type_synonym byte = "8 word"
type_synonym u32 = "32 word"
type_synonym u64 = "64 word"

text \<open>The codes of \<open>mp4tag_error.h\<close>.\<close>

datatype mp4tag_rc =
    MP4TAG_OK
  | MP4TAG_ERR_INVALID_ARG
  | MP4TAG_ERR_NO_MEMORY
  | MP4TAG_ERR_IO
  | MP4TAG_ERR_NOT_OPEN
  | MP4TAG_ERR_ALREADY_OPEN
  | MP4TAG_ERR_READ_ONLY
  | MP4TAG_ERR_NOT_MP4
  | MP4TAG_ERR_BAD_BOX
  | MP4TAG_ERR_CORRUPT
  | MP4TAG_ERR_TRUNCATED
  | MP4TAG_ERR_UNSUPPORTED
  | MP4TAG_ERR_NO_TAGS
  | MP4TAG_ERR_TAG_NOT_FOUND
  | MP4TAG_ERR_TAG_TOO_LARGE
  | MP4TAG_ERR_NO_SPACE
  | MP4TAG_ERR_WRITE_FAILED
  | MP4TAG_ERR_SEEK_FAILED
  | MP4TAG_ERR_RENAME_FAILED

section \<open>The buffered file handle\<close>

text \<open>
  A handle is the content of the underlying file, the open mode, the logical position and
  a script of pending failures of the system calls behind it.  Each call of \<open>file_read\<close>,
  \<open>file_read_partial\<close>, \<open>file_write\<close> or \<open>file_sync\<close> that reaches the operating system
  consumes the head of the script; an empty script means that no call fails.  The 8 KiB
  read cache of the source is transparent (every write drops it), so it is not part of the
  state, and \<open>fh->file_size\<close> is the length of the content.  A read served from the cache
  cannot fail in the source; the model lets the script fail it all the same, which only
  adds behaviours.
\<close>

datatype io_fault =
    NoFault
  | SeekFault         \<comment> \<open>\<open>lseek\<close> returns a negative value\<close>
  | ReadFault         \<comment> \<open>\<open>read\<close> returns a negative value\<close>
  | WriteFault nat    \<comment> \<open>\<open>write\<close> fails after that many bytes went out\<close>
  | SyncFault         \<comment> \<open>\<open>fsync\<close> fails\<close>

record file_handle =
  fbytes :: "byte list"
  fh_writable :: bool
  pos :: int
  faults :: "io_fault list"

definition next_fault :: "file_handle \<Rightarrow> io_fault" where
  "next_fault fh = (case faults fh of [] \<Rightarrow> NoFault | f # _ \<Rightarrow> f)"

definition pop_fault :: "file_handle \<Rightarrow> file_handle" where
  "pop_fault fh = fh\<lparr>faults := tl (faults fh)\<rparr>"

definition file_size :: "file_handle \<Rightarrow> int" where
  "file_size fh = int (length (fbytes fh))"

definition file_seek :: "file_handle \<Rightarrow> int \<Rightarrow> file_handle" where
  "file_seek fh off = fh\<lparr>pos := off\<rparr>"

definition file_tell :: "file_handle \<Rightarrow> int" where
  "file_tell fh = pos fh"

text \<open>
  \<open>file_read\<close> delivers exactly \<open>n\<close> bytes or fails.  A negative position makes \<open>lseek\<close>
  fail.  When the file ends before \<open>n\<close> bytes are there, the bytes up to the end are
  consumed and the next \<open>read\<close> returns 0: \<open>Truncated\<close>.
\<close>

definition file_read :: "file_handle \<Rightarrow> nat \<Rightarrow> (mp4tag_rc + byte list) \<times> file_handle" where
  "file_read fh n =
     (if n = 0 then (Inr [], fh)
      else if pos fh < 0 \<or> next_fault fh = SeekFault
        then (Inl MP4TAG_ERR_SEEK_FAILED, pop_fault fh)
      else if next_fault fh = ReadFault
        then (Inl MP4TAG_ERR_IO, pop_fault fh)
      else if pos fh + int n \<le> file_size fh
        then (Inr (take n (drop (nat (pos fh)) (fbytes fh))),
              pop_fault (fh\<lparr>pos := pos fh + int n\<rparr>))
      else (Inl MP4TAG_ERR_TRUNCATED, pop_fault (fh\<lparr>pos := max (pos fh) (file_size fh)\<rparr>)))"

text \<open>\<open>file_read_partial\<close>: up to \<open>n\<close> bytes, or \<open>None\<close> for the source's \<open>-1\<close>.\<close>

definition file_read_partial :: "file_handle \<Rightarrow> nat \<Rightarrow> byte list option \<times> file_handle" where
  "file_read_partial fh n =
     (if pos fh < 0 \<or> next_fault fh = SeekFault \<or> next_fault fh = ReadFault
        then (None, pop_fault fh)
      else (let bs = take n (drop (nat (pos fh)) (fbytes fh))
            in (Some bs, pop_fault (fh\<lparr>pos := pos fh + int (length bs)\<rparr>))))"

text \<open>
  Writing at \<open>p\<close> replaces the bytes from \<open>p\<close> on and extends the file when the data runs
  past its end; a position beyond the end leaves a hole of zero bytes.  An empty buffer
  reaches \<open>lseek\<close> but not \<open>write\<close>.  (After an empty write beyond the end the source's
  cached size would run ahead of the file; every write sequence of the library starts
  with a non-empty buffer, so the cached size stays the length of the content.)
\<close>

definition put_bytes :: "byte list \<Rightarrow> nat \<Rightarrow> byte list \<Rightarrow> byte list" where
  "put_bytes old p bs =
     (if bs = [] then old
      else take p old @ replicate (p - length old) 0 @ bs @ drop (p + length bs) old)"

text \<open>The number of bytes after which \<open>write\<close> fails, if it does during this call.\<close>

definition write_fault_at :: "file_handle \<Rightarrow> byte list \<Rightarrow> nat option" where
  "write_fault_at fh bs =
     (case next_fault fh of
        WriteFault k \<Rightarrow> if k < length bs then Some k else None
      | _ \<Rightarrow> None)"

definition file_write :: "file_handle \<Rightarrow> byte list \<Rightarrow> mp4tag_rc \<times> file_handle" where
  "file_write fh bs =
     (if \<not> fh_writable fh then (MP4TAG_ERR_READ_ONLY, fh)
      else if pos fh < 0 \<or> next_fault fh = SeekFault
        then (MP4TAG_ERR_SEEK_FAILED, pop_fault fh)
      else (case write_fault_at fh bs of
              Some k \<Rightarrow>
                (MP4TAG_ERR_WRITE_FAILED,
                 pop_fault (fh\<lparr>fbytes := put_bytes (fbytes fh) (nat (pos fh)) (take k bs),
                               pos := pos fh + int k\<rparr>))
            | None \<Rightarrow>
                (MP4TAG_OK,
                 pop_fault (fh\<lparr>fbytes := put_bytes (fbytes fh) (nat (pos fh)) bs,
                               pos := pos fh + int (length bs)\<rparr>))))"

definition file_sync :: "file_handle \<Rightarrow> mp4tag_rc \<times> file_handle" where
  "file_sync fh =
     (if next_fault fh = SyncFault then (MP4TAG_ERR_IO, pop_fault fh)
      else (MP4TAG_OK, pop_fault fh))"

section \<open>Box primitives (\<open>mp4_atoms.c\<close>)\<close>

record mp4_box =
  box_type :: u32
  box_offset :: int
  box_size :: int
  data_offset :: int
  data_size :: int
  header_size :: int

definition be32 :: "byte list \<Rightarrow> u32" where
  "be32 b = push_bit 24 (ucast (b ! 0)) OR push_bit 16 (ucast (b ! 1))
            OR push_bit 8 (ucast (b ! 2)) OR ucast (b ! 3)"

definition be64 :: "byte list \<Rightarrow> u64" where
  "be64 b = push_bit 56 (ucast (b ! 0)) OR push_bit 48 (ucast (b ! 1))
            OR push_bit 40 (ucast (b ! 2)) OR push_bit 32 (ucast (b ! 3))
            OR push_bit 24 (ucast (b ! 4)) OR push_bit 16 (ucast (b ! 5))
            OR push_bit 8 (ucast (b ! 6)) OR ucast (b ! 7)"

text \<open>
  The fields \<open>size\<close> and \<open>data_size\<close> are \<open>int64_t\<close>.  The size read from a 64-bit
  size field can be any 64-bit value, so \<open>size - header_size\<close> can leave the range of
  \<open>int64_t\<close>; the difference is then reduced to that range as the two's-complement
  machine does.
\<close>

definition wrap_int64 :: "int \<Rightarrow> int" where
  "wrap_int64 x = (x + 9223372036854775808) mod 18446744073709551616 - 9223372036854775808"

definition mk_box :: "u32 \<Rightarrow> int \<Rightarrow> int \<Rightarrow> int \<Rightarrow> mp4_box" where
  "mk_box t off sz hs =
     \<lparr>box_type = t, box_offset = off, box_size = sz,
      data_offset = off + hs, data_size = wrap_int64 (sz - hs), header_size = hs\<rparr>"

definition mp4_read_box_header :: "file_handle \<Rightarrow> (mp4tag_rc + mp4_box) \<times> file_handle" where
  "mp4_read_box_header fh =
     (let off = file_tell fh in
      if off < 0 then (Inl MP4TAG_ERR_IO, fh)
      else case file_read fh 8 of
        (Inl rc, fh1) \<Rightarrow> (Inl rc, fh1)
      | (Inr hdr, fh1) \<Rightarrow>
          (let raw_size = be32 (take 4 hdr); t = be32 (drop 4 hdr) in
           if raw_size = 1 then
             (case file_read fh1 8 of
                (Inl rc, fh2) \<Rightarrow> (Inl rc, fh2)
              | (Inr ext, fh2) \<Rightarrow> (Inr (mk_box t off (sint (be64 ext)) 16), fh2))
           else if raw_size = 0 then (Inr (mk_box t off (file_size fh1 - off) 8), fh1)
           else (Inr (mk_box t off (uint raw_size) 8), fh1)))"

section \<open>C strings and \<open>printf\<close>/\<open>scanf\<close> conversions\<close>

text \<open>
  A C string is the list of its characters before the terminating NUL; a \<open>char *\<close> that
  may be \<open>NULL\<close> is a \<open>string option\<close>.  A buffer that is turned into a string ends at
  its first NUL (\<open>c_str\<close>).
\<close>

definition c_str :: "string \<Rightarrow> string" where
  "c_str s = takeWhile (\<lambda>c. c \<noteq> CHR 0x00) s"

definition byte_of_char :: "char \<Rightarrow> byte" where
  "byte_of_char c = of_nat (of_char c)"

definition char_of_byte :: "byte \<Rightarrow> char" where
  "char_of_byte b = char_of (unat b)"

definition to_upper :: "char \<Rightarrow> char" where
  "to_upper c = (if (97::nat) \<le> of_char c \<and> (of_char c :: nat) \<le> 122
                 then char_of ((of_char c :: nat) - 32) else c)"

text \<open>\<open>str_casecmp\<close> of \<open>string_util.c\<close>; the end of a string reads as NUL.\<close>

fun casecmp_loop :: "string \<Rightarrow> string \<Rightarrow> int" where
  "casecmp_loop (a # as) (b # bs) =
     (if to_upper a \<noteq> to_upper b
      then int (of_char (to_upper a)) - int (of_char (to_upper b))
      else casecmp_loop as bs)"
| "casecmp_loop [] [] = 0"
| "casecmp_loop [] (b # bs) = - int (of_char b)"
| "casecmp_loop (a # as) [] = int (of_char a)"

definition str_casecmp :: "string option \<Rightarrow> string option \<Rightarrow> int" where
  "str_casecmp a b =
     (case (a, b) of
        (Some x, Some y) \<Rightarrow> casecmp_loop x y
      | (None, None) \<Rightarrow> 0
      | _ \<Rightarrow> 1)"

text \<open>
  \<open>str_copy\<close> into a buffer of \<open>dst_size > 0\<close> bytes: the result code and the string left
  in the buffer.
\<close>

definition str_copy :: "nat \<Rightarrow> string option \<Rightarrow> int \<times> string" where
  "str_copy dst_size src =
     (case src of
        None \<Rightarrow> (0, [])
      | Some s \<Rightarrow> if length s \<ge> dst_size then (-1, take (dst_size - 1) s) else (0, s))"

text \<open>\<open>"%u"\<close> and \<open>"%llu"\<close> of \<open>snprintf\<close>: the decimal digits of an unsigned value.\<close>

definition digit_char :: "nat \<Rightarrow> char" where
  "digit_char d = ''0123456789'' ! d"

fun dec_str :: "nat \<Rightarrow> string" where
  "dec_str n = (if n < 10 then [digit_char n] else dec_str (n div 10) @ [digit_char (n mod 10)])"

declare dec_str.simps [simp del]

text \<open>
  \<open>"%u"\<close> of \<open>sscanf\<close>: white space is skipped, a sign is accepted, at least one digit is
  needed; the result is the value and the unread rest.  The value is reduced modulo
  \<open>2^32\<close> (an out-of-range value is undefined behaviour in C).
\<close>

definition is_space :: "char \<Rightarrow> bool" where
  "is_space c = (c \<in> set [CHR '' '', CHR 0x09, CHR 0x0A, CHR 0x0B, CHR 0x0C, CHR 0x0D])"

definition is_digit :: "char \<Rightarrow> bool" where
  "is_digit c = ((48::nat) \<le> of_char c \<and> (of_char c :: nat) \<le> 57)"

fun scan_digits :: "nat \<Rightarrow> string \<Rightarrow> nat \<times> string" where
  "scan_digits acc [] = (acc, [])"
| "scan_digits acc (c # cs) =
     (if is_digit c then scan_digits (acc * 10 + (of_char c - 48)) cs else (acc, c # cs))"

definition scan_u :: "string \<Rightarrow> (u32 \<times> string) option" where
  "scan_u s =
     (let s1 = dropWhile is_space s;
          neg = (s1 \<noteq> [] \<and> hd s1 = CHR ''-'');
          s2 = (if s1 \<noteq> [] \<and> (hd s1 = CHR ''-'' \<or> hd s1 = CHR ''+'') then tl s1 else s1)
      in if s2 = [] \<or> \<not> is_digit (hd s2) then None
         else (let (n, rest) = scan_digits 0 s2
               in Some (if neg then - of_nat n else of_nat n, rest)))"

text \<open>
  \<open>sscanf(s, "%u/%u", &num, &total)\<close>: the number of conversions made and the two
  variables afterwards, given their values before.
\<close>

definition sscanf_u_slash_u :: "string \<Rightarrow> u32 \<Rightarrow> u32 \<Rightarrow> int \<times> u32 \<times> u32" where
  "sscanf_u_slash_u s num tot =
     (case scan_u s of
        None \<Rightarrow> (if dropWhile is_space s = [] then -1 else 0, num, tot)
      | Some (n, rest) \<Rightarrow>
          (case rest of
             c # rest' \<Rightarrow>
               (if c = CHR ''/'' then
                  (case scan_u rest' of
                     None \<Rightarrow> (1, n, tot)
                   | Some (t, _) \<Rightarrow> (2, n, t))
                else (1, n, tot))
           | [] \<Rightarrow> (1, n, tot)))"

definition sscanf_u :: "string \<Rightarrow> u32 \<Rightarrow> int \<times> u32" where
  "sscanf_u s v =
     (case scan_u s of
        None \<Rightarrow> (if dropWhile is_space s = [] then -1 else 0, v)
      | Some (n, _) \<Rightarrow> (1, n))"

section \<open>FourCC codes (\<open>mp4_atoms.h\<close>)\<close>

definition MP4_FOURCC :: "byte \<Rightarrow> byte \<Rightarrow> byte \<Rightarrow> byte \<Rightarrow> u32" where
  "MP4_FOURCC a b c d = be32 [a, b, c, d]"

definition fourcc_of :: "string \<Rightarrow> u32" where
  "fourcc_of s = MP4_FOURCC (byte_of_char (s ! 0)) (byte_of_char (s ! 1))
                            (byte_of_char (s ! 2)) (byte_of_char (s ! 3))"

definition "MP4_BOX_FTYP = fourcc_of ''ftyp''"
definition "MP4_BOX_MOOV = fourcc_of ''moov''"
definition "MP4_BOX_MDAT = fourcc_of ''mdat''"
definition "MP4_BOX_FREE = fourcc_of ''free''"
definition "MP4_BOX_SKIP = fourcc_of ''skip''"
definition "MP4_BOX_UDTA = fourcc_of ''udta''"
definition "MP4_BOX_META = fourcc_of ''meta''"
definition "MP4_BOX_ILST = fourcc_of ''ilst''"
definition "MP4_BOX_HDLR = fourcc_of ''hdlr''"
definition "MP4_BOX_DATA = fourcc_of ''data''"

definition "MP4_TAG_NAM = MP4_FOURCC 0xA9 0x6E 0x61 0x6D"
definition "MP4_TAG_ART = MP4_FOURCC 0xA9 0x41 0x52 0x54"
definition "MP4_TAG_ALB = MP4_FOURCC 0xA9 0x61 0x6C 0x62"
definition "MP4_TAG_AART = fourcc_of ''aART''"
definition "MP4_TAG_DAY = MP4_FOURCC 0xA9 0x64 0x61 0x79"
definition "MP4_TAG_TRKN = fourcc_of ''trkn''"
definition "MP4_TAG_DISK = fourcc_of ''disk''"
definition "MP4_TAG_GEN = MP4_FOURCC 0xA9 0x67 0x65 0x6E"
definition "MP4_TAG_GNRE = fourcc_of ''gnre''"
definition "MP4_TAG_WRT = MP4_FOURCC 0xA9 0x77 0x72 0x74"
definition "MP4_TAG_CMT = MP4_FOURCC 0xA9 0x63 0x6D 0x74"
definition "MP4_TAG_TOO = MP4_FOURCC 0xA9 0x74 0x6F 0x6F"
definition "MP4_TAG_CPRT = fourcc_of ''cprt''"
definition "MP4_TAG_TMPO = fourcc_of ''tmpo''"
definition "MP4_TAG_LYR = MP4_FOURCC 0xA9 0x6C 0x79 0x72"
definition "MP4_TAG_GRP = MP4_FOURCC 0xA9 0x67 0x72 0x70"
definition "MP4_TAG_DESC = fourcc_of ''desc''"
definition "MP4_TAG_COVR = fourcc_of ''covr''"
definition "MP4_TAG_CPIL = fourcc_of ''cpil''"
definition "MP4_TAG_PGAP = fourcc_of ''pgap''"
definition "MP4_TAG_SONM = fourcc_of ''sonm''"
definition "MP4_TAG_SOAR = fourcc_of ''soar''"
definition "MP4_TAG_SOAL = fourcc_of ''soal''"
definition "MP4_TAG_SOAA = fourcc_of ''soaa''"
definition "MP4_TAG_SOCO = fourcc_of ''soco''"

definition "MP4_DATA_IMPLICIT = (0 :: u32)"
definition "MP4_DATA_UTF8 = (1 :: u32)"
definition "MP4_DATA_UTF16 = (2 :: u32)"
definition "MP4_DATA_JPEG = (13 :: u32)"
definition "MP4_DATA_PNG = (14 :: u32)"
definition "MP4_DATA_INTEGER = (21 :: u32)"

lemmas fourcc_defs =
  MP4_BOX_FTYP_def MP4_BOX_MOOV_def MP4_BOX_MDAT_def MP4_BOX_FREE_def MP4_BOX_SKIP_def
  MP4_BOX_UDTA_def MP4_BOX_META_def MP4_BOX_ILST_def MP4_BOX_HDLR_def MP4_BOX_DATA_def
  MP4_TAG_NAM_def MP4_TAG_ART_def MP4_TAG_ALB_def MP4_TAG_AART_def MP4_TAG_DAY_def
  MP4_TAG_TRKN_def MP4_TAG_DISK_def MP4_TAG_GEN_def MP4_TAG_GNRE_def MP4_TAG_WRT_def
  MP4_TAG_CMT_def MP4_TAG_TOO_def MP4_TAG_CPRT_def MP4_TAG_TMPO_def MP4_TAG_LYR_def
  MP4_TAG_GRP_def MP4_TAG_DESC_def MP4_TAG_COVR_def MP4_TAG_CPIL_def MP4_TAG_PGAP_def
  MP4_TAG_SONM_def MP4_TAG_SOAR_def MP4_TAG_SOAL_def MP4_TAG_SOAA_def MP4_TAG_SOCO_def


section \<open>Tag collections (\<open>mp4tag_types.h\<close>)\<close>

datatype mp4tag_target_type =
    MP4TAG_TARGET_COLLECTION
  | MP4TAG_TARGET_EDITION
  | MP4TAG_TARGET_ALBUM
  | MP4TAG_TARGET_PART
  | MP4TAG_TARGET_TRACK
  | MP4TAG_TARGET_SUBTRACK
  | MP4TAG_TARGET_SHOT

text \<open>
  The \<open>next\<close> links of the source are lists here.  \<open>st_binary\<close> is the pointer together
  with \<open>binary_size\<close>, its length.
\<close>

datatype mp4tag_simple_tag =
  SimpleTag (st_name: "string option") (st_value: "string option")
            (st_binary: "byte list option") (st_language: "string option")
            (st_is_default: bool) (st_nested: "mp4tag_simple_tag list")

record mp4tag_tag =
  target_type :: mp4tag_target_type
  track_uids :: "u64 list"
  simple_tags :: "mp4tag_simple_tag list"

record mp4tag_collection =
  tags :: "mp4tag_tag list"
  count :: nat

section \<open>Tag name and FourCC mapping (\<open>mp4_tags.c\<close>)\<close>

definition g_tag_map :: "(string \<times> u32) list" where
  "g_tag_map =
     [(''TITLE'', MP4_TAG_NAM), (''ARTIST'', MP4_TAG_ART), (''ALBUM'', MP4_TAG_ALB),
      (''ALBUM_ARTIST'', MP4_TAG_AART), (''DATE_RELEASED'', MP4_TAG_DAY),
      (''TRACK_NUMBER'', MP4_TAG_TRKN), (''DISC_NUMBER'', MP4_TAG_DISK),
      (''GENRE'', MP4_TAG_GEN), (''COMPOSER'', MP4_TAG_WRT), (''COMMENT'', MP4_TAG_CMT),
      (''ENCODER'', MP4_TAG_TOO), (''COPYRIGHT'', MP4_TAG_CPRT), (''BPM'', MP4_TAG_TMPO),
      (''LYRICS'', MP4_TAG_LYR), (''GROUPING'', MP4_TAG_GRP), (''DESCRIPTION'', MP4_TAG_DESC),
      (''COVER_ART'', MP4_TAG_COVR), (''COMPILATION'', MP4_TAG_CPIL),
      (''GAPLESS'', MP4_TAG_PGAP), (''SORT_NAME'', MP4_TAG_SONM),
      (''SORT_ARTIST'', MP4_TAG_SOAR), (''SORT_ALBUM'', MP4_TAG_SOAL),
      (''SORT_ALBUM_ARTIST'', MP4_TAG_SOAA), (''SORT_COMPOSER'', MP4_TAG_SOCO)]"

definition mp4_str_to_fourcc :: "string option \<Rightarrow> u32" where
  "mp4_str_to_fourcc s =
     (case s of
        None \<Rightarrow> 0
      | Some cs \<Rightarrow>
          MP4_FOURCC (if length cs > 0 then byte_of_char (cs ! 0) else 0)
                     (if length cs > 1 then byte_of_char (cs ! 1) else 0)
                     (if length cs > 2 then byte_of_char (cs ! 2) else 0)
                     (if length cs > 3 then byte_of_char (cs ! 3) else 0))"

text \<open>The four characters written by \<open>mp4_fourcc_to_str\<close>, before the NUL.\<close>

definition mp4_fourcc_to_str :: "u32 \<Rightarrow> string" where
  "mp4_fourcc_to_str fourcc =
     [char_of_byte (ucast (drop_bit 24 fourcc)), char_of_byte (ucast (drop_bit 16 fourcc)),
      char_of_byte (ucast (drop_bit 8 fourcc)), char_of_byte (ucast fourcc)]"

definition mp4_tag_name_to_fourcc :: "string option \<Rightarrow> u32" where
  "mp4_tag_name_to_fourcc name =
     (case name of
        None \<Rightarrow> 0
      | Some n \<Rightarrow>
          (case find (\<lambda>m. str_casecmp (Some n) (Some (fst m)) = 0) g_tag_map of
             Some m \<Rightarrow> snd m
           | None \<Rightarrow> if length n = 4 then mp4_str_to_fourcc (Some n) else 0))"

definition mp4_tag_fourcc_to_name :: "u32 \<Rightarrow> string option" where
  "mp4_tag_fourcc_to_name fourcc =
     (case find (\<lambda>m. snd m = fourcc) g_tag_map of
        Some m \<Rightarrow> Some (fst m)
      | None \<Rightarrow> None)"

section \<open>Decoding an ilst item (\<open>parse_ilst_item\<close>)\<close>

text \<open>Big-endian unsigned value of up to eight bytes (the \<open>ival\<close> loop).\<close>

definition be_uint :: "byte list \<Rightarrow> u64" where
  "be_uint bs = foldl (\<lambda>ival b. push_bit 8 ival OR ucast b) 0 bs"

definition be16 :: "byte \<Rightarrow> byte \<Rightarrow> 16 word" where
  "be16 hi lo = push_bit 8 (ucast hi) OR ucast lo"

definition is_int_atom :: "u32 \<Rightarrow> bool" where
  "is_int_atom t = (t = MP4_TAG_TRKN \<or> t = MP4_TAG_DISK \<or> t = MP4_TAG_TMPO \<or>
                    t = MP4_TAG_CPIL \<or> t = MP4_TAG_PGAP)"

text \<open>
  The string stored for a well-known integer atom, from the \<open>value_size\<close> bytes read into
  \<open>int_buf\<close> (\<open>0 < value_size \<le> 8\<close>).
\<close>

definition int_atom_value :: "u32 \<Rightarrow> int \<Rightarrow> byte list \<Rightarrow> string" where
  "int_atom_value t value_size int_buf =
     (if (t = MP4_TAG_TRKN \<or> t = MP4_TAG_DISK) \<and> value_size \<ge> 6 then
        (let num = be16 (int_buf ! 2) (int_buf ! 3);
             tot = be16 (int_buf ! 4) (int_buf ! 5)
         in if tot > 0 then dec_str (unat num) @ ''/'' @ dec_str (unat tot)
            else dec_str (unat num))
      else if t = MP4_TAG_TMPO \<and> value_size = 2 then
        dec_str (unat (be16 (int_buf ! 0) (int_buf ! 1)))
      else if value_size = 1 then
        dec_str (unat (int_buf ! 0))
      else dec_str (unat (be_uint int_buf)))"

definition item_name :: "u32 \<Rightarrow> string" where
  "item_name t =
     (case mp4_tag_fourcc_to_name t of
        Some n \<Rightarrow> n
      | None \<Rightarrow> c_str (mp4_fourcc_to_str t))"

text \<open>
  The body run for the first \<open>data\<close> child with \<open>data_size \<ge> 8\<close>: the handle stands
  just behind the child's header.
\<close>

definition parse_data_box ::
  "file_handle \<Rightarrow> mp4_box \<Rightarrow> mp4_box \<Rightarrow> (mp4tag_rc + mp4tag_simple_tag) \<times> file_handle" where
  "parse_data_box fh item_box child =
     (case file_read fh 8 of
        (Inl rc, fh1) \<Rightarrow> (Inl rc, fh1)
      | (Inr hdr, fh1) \<Rightarrow>
          (let data_type = be32 (take 4 hdr);
               value_size = data_size child - 8;
               name = Some (item_name (box_type item_box))
           in
           if is_int_atom (box_type item_box) \<and> value_size > 0 \<and> value_size \<le> 8 then
             (case file_read fh1 (nat value_size) of
                (Inl rc, fh2) \<Rightarrow> (Inl rc, fh2)
              | (Inr int_buf, fh2) \<Rightarrow>
                  (Inr (SimpleTag name
                          (Some (int_atom_value (box_type item_box) value_size int_buf))
                          None None True []), fh2))
           else if data_type = MP4_DATA_UTF8 \<or> data_type = MP4_DATA_IMPLICIT then
             (if value_size > 0 then
                (case file_read fh1 (nat value_size) of
                   (Inl rc, fh2) \<Rightarrow> (Inl rc, fh2)
                 | (Inr text, fh2) \<Rightarrow>
                     (Inr (SimpleTag name (Some (c_str (map char_of_byte text)))
                             None None True []), fh2))
              else (Inr (SimpleTag name None None None True []), fh1))
           else if data_type = MP4_DATA_INTEGER then
             (if value_size > 0 \<and> value_size \<le> 8 then
                (case file_read fh1 (nat value_size) of
                   (Inl rc, fh2) \<Rightarrow> (Inl rc, fh2)
                 | (Inr int_buf, fh2) \<Rightarrow>
                     (Inr (SimpleTag name (Some (dec_str (unat (be_uint int_buf))))
                             None None True []), fh2))
              else (Inr (SimpleTag name None None None True []), fh1))
           else if data_type = MP4_DATA_JPEG \<or> data_type = MP4_DATA_PNG then
             (if value_size > 0 then
                (case file_read fh1 (nat value_size) of
                   (Inl rc, fh2) \<Rightarrow> (Inl rc, fh2)
                 | (Inr bin, fh2) \<Rightarrow>
                     (Inr (SimpleTag name None (Some bin) None True []), fh2))
              else (Inr (SimpleTag name None None None True []), fh1))
           else
             (if value_size > 0 then
                (case file_read fh1 (nat value_size) of
                   (Inl rc, fh2) \<Rightarrow> (Inl rc, fh2)
                 | (Inr bin, fh2) \<Rightarrow>
                     (Inr (SimpleTag name None (Some bin) None True []), fh2))
              else (Inr (SimpleTag name None None None True []), fh1))))"

lemma read_box_header_offset:
  "mp4_read_box_header fh = (Inr b, fh') \<Longrightarrow> box_offset b = pos fh"
  by (auto simp: mp4_read_box_header_def Let_def mk_box_def file_tell_def
           split: if_splits prod.splits sum.splits)

text \<open>
  The loop over the children of the item box, from \<open>pos\<close> to \<open>end\<close>.  Leaving the loop
  (no room for a header, or a child smaller than a header) is \<open>TagNotFound\<close>.
\<close>

function parse_item_loop ::
  "file_handle \<Rightarrow> mp4_box \<Rightarrow> int \<Rightarrow> int \<Rightarrow> (mp4tag_rc + mp4tag_simple_tag) \<times> file_handle" where
  "parse_item_loop fh item_box p e =
     (if p + 8 \<le> e then
        (case mp4_read_box_header (file_seek fh p) of
           (Inl rc, fh1) \<Rightarrow> (Inl rc, fh1)
         | (Inr child, fh1) \<Rightarrow>
             if box_size child < 8 then (Inl MP4TAG_ERR_TAG_NOT_FOUND, fh1)
             else if box_type child = MP4_BOX_DATA \<and> data_size child \<ge> 8
               then parse_data_box fh1 item_box child
             else parse_item_loop fh1 item_box (box_offset child + box_size child) e)
      else (Inl MP4TAG_ERR_TAG_NOT_FOUND, fh))"
  by pat_completeness auto
termination
proof (relation "measure (\<lambda>(fh, item_box, p, e). nat (e - p))", goal_cases)
  case 1
  show ?case by simp
next
  case (2 fh item_box p e x y child)
  from 2(2)[symmetric] 2(3) have "box_offset child = p"
    by (simp add: read_box_header_offset file_seek_def)
  with 2 show ?case by simp
qed

declare parse_item_loop.simps [simp del]

definition parse_ilst_item ::
  "file_handle \<Rightarrow> mp4_box \<Rightarrow> (mp4tag_rc + mp4tag_simple_tag) \<times> file_handle" where
  "parse_ilst_item fh item_box =
     parse_item_loop fh item_box (data_offset item_box) (box_offset item_box + box_size item_box)"

section \<open>Encoding (\<open>serialize_tag_item\<close>, \<open>mp4_tags_serialize_ilst\<close>, \<open>mp4_tags_build_udta\<close>)\<close>

text \<open>A \<open>dyn_buffer_t\<close> is the list of the bytes appended so far.\<close>

definition be32_bytes :: "u32 \<Rightarrow> byte list" where
  "be32_bytes val = [ucast (drop_bit 24 val), ucast (drop_bit 16 val),
                     ucast (drop_bit 8 val), ucast val]"

definition buffer_append_be32 :: "byte list \<Rightarrow> u32 \<Rightarrow> byte list" where
  "buffer_append_be32 buf val = buf @ be32_bytes val"

definition mp4_write_box_header :: "byte list \<Rightarrow> u32 \<Rightarrow> u32 \<Rightarrow> byte list" where
  "mp4_write_box_header buf t sz = buffer_append_be32 (buffer_append_be32 buf sz) t"

text \<open>\<open>mp4_write_free_box\<close>: the result code (\<open>0\<close> or \<open>-1\<close>) and the buffer.\<close>

definition mp4_write_free_box :: "byte list \<Rightarrow> u32 \<Rightarrow> int \<times> byte list" where
  "mp4_write_free_box buf total_size =
     (if total_size < 8 then (-1, buf)
      else (0, mp4_write_box_header buf MP4_BOX_FREE total_size
               @ replicate (unat (total_size - 8)) 0))"

text \<open>
  The branch of \<open>serialize_tag_item\<close> that picks the type indicator and builds
  \<open>data_content\<close>; \<open>None\<close> is the early \<open>return 0\<close> of a cover without image data.
\<close>

definition item_content :: "u32 \<Rightarrow> mp4tag_simple_tag \<Rightarrow> (u32 \<times> byte list) option" where
  "item_content fourcc st =
     (if fourcc = MP4_TAG_TRKN \<or> fourcc = MP4_TAG_DISK then
        (let (num, tot) =
               (case st_value st of
                  None \<Rightarrow> (0, 0)
                | Some v \<Rightarrow>
                    (case sscanf_u_slash_u v 0 0 of
                       (r, n, t) \<Rightarrow> if r < 1 then (snd (sscanf_u v n), t) else (n, t)))
         in Some (MP4_DATA_IMPLICIT,
                  [0, 0, ucast (drop_bit 8 num), ucast num,
                   ucast (drop_bit 8 tot), ucast tot, 0, 0]))
      else if fourcc = MP4_TAG_TMPO then
        (let bpm = (case st_value st of None \<Rightarrow> 0 | Some v \<Rightarrow> snd (sscanf_u v 0))
         in Some (MP4_DATA_INTEGER, [ucast (drop_bit 8 bpm), ucast bpm]))
      else if fourcc = MP4_TAG_CPIL \<or> fourcc = MP4_TAG_PGAP then
        (let val = (case st_value st of
                      None \<Rightarrow> 0
                    | Some v \<Rightarrow> if snd (sscanf_u v 0) \<noteq> 0 then 1 else 0)
         in Some (MP4_DATA_INTEGER, [val]))
      else if fourcc = MP4_TAG_COVR then
        (case st_binary st of
           None \<Rightarrow> None
         | Some bin \<Rightarrow>
             if length bin > 0 then
               Some (if length bin \<ge> 4 \<and> bin ! 0 = 0x89 \<and> bin ! 1 = 0x50
                     then MP4_DATA_PNG else MP4_DATA_JPEG, bin)
             else None)
      else if fourcc = MP4_TAG_GNRE then
        (let genre = (case st_value st of None \<Rightarrow> 0 | Some v \<Rightarrow> snd (sscanf_u v 0))
         in Some (MP4_DATA_IMPLICIT, [ucast (drop_bit 8 genre), ucast genre]))
      else
        Some (MP4_DATA_UTF8,
              (case st_value st of None \<Rightarrow> [] | Some v \<Rightarrow> map byte_of_char v)))"

definition serialize_tag_item :: "mp4tag_simple_tag \<Rightarrow> byte list \<Rightarrow> mp4tag_rc \<times> byte list" where
  "serialize_tag_item st buf =
     (let fourcc0 = mp4_tag_name_to_fourcc (st_name st);
          resolved =
            (if fourcc0 = 0 then
               (case st_name st of
                  Some n \<Rightarrow> if length n = 4 then Some (mp4_str_to_fourcc (Some n)) else None
                | None \<Rightarrow> None)
             else Some fourcc0)
      in case resolved of
           None \<Rightarrow> (MP4TAG_OK, buf)
         | Some fourcc \<Rightarrow>
             (case item_content fourcc st of
                None \<Rightarrow> (MP4TAG_OK, buf)
              | Some (data_type, data_content) \<Rightarrow>
                  (let data_box_size = 8 + 4 + 4 + (of_nat (length data_content) :: u32);
                       item_box_size = 8 + data_box_size;
                       b1 = mp4_write_box_header buf fourcc item_box_size;
                       b2 = mp4_write_box_header b1 MP4_BOX_DATA data_box_size;
                       b3 = buffer_append_be32 b2 data_type;
                       b4 = buffer_append_be32 b3 0
                   in (MP4TAG_OK, b4 @ data_content))))"

fun serialize_simple_tags :: "mp4tag_simple_tag list \<Rightarrow> byte list \<Rightarrow> mp4tag_rc \<times> byte list" where
  "serialize_simple_tags [] buf = (MP4TAG_OK, buf)"
| "serialize_simple_tags (st # sts) buf =
     (if st_name st = None then serialize_simple_tags sts buf
      else (case serialize_tag_item st buf of
              (rc, buf') \<Rightarrow>
                if rc \<noteq> MP4TAG_OK then (rc, buf') else serialize_simple_tags sts buf'))"

fun serialize_tags :: "mp4tag_tag list \<Rightarrow> byte list \<Rightarrow> mp4tag_rc \<times> byte list" where
  "serialize_tags [] buf = (MP4TAG_OK, buf)"
| "serialize_tags (t # ts) buf =
     (case serialize_simple_tags (simple_tags t) buf of
        (rc, buf') \<Rightarrow> if rc \<noteq> MP4TAG_OK then (rc, buf') else serialize_tags ts buf')"

text \<open>
  The collection pointer may be \<open>NULL\<close> at the two entry points, hence the \<open>option\<close>;
  the buffer pointer never is.
\<close>

definition mp4_tags_serialize_ilst ::
  "mp4tag_collection option \<Rightarrow> byte list \<Rightarrow> mp4tag_rc \<times> byte list" where
  "mp4_tags_serialize_ilst coll buf =
     (case coll of
        None \<Rightarrow> (MP4TAG_ERR_INVALID_ARG, buf)
      | Some c \<Rightarrow> serialize_tags (tags c) buf)"

definition hdlr_data :: "byte list" where
  "hdlr_data = [0, 0, 0, 0, 0, 0, 0, 0] @ map byte_of_char ''mdir'' @ map byte_of_char ''appl''
               @ [0, 0, 0, 0, 0, 0, 0, 0, 0]"

definition mp4_tags_build_udta ::
  "mp4tag_collection option \<Rightarrow> byte list \<Rightarrow> mp4tag_rc \<times> byte list" where
  "mp4_tags_build_udta coll buf =
     (case coll of
        None \<Rightarrow> (MP4TAG_ERR_INVALID_ARG, buf)
      | Some c \<Rightarrow>
          (case mp4_tags_serialize_ilst coll [] of
             (rc, ilst_content) \<Rightarrow>
               if rc \<noteq> MP4TAG_OK then (rc, buf)
               else
                 (let ilst_size = 8 + (of_nat (length ilst_content) :: u32);
                      hdlr_size = 8 + (of_nat (length hdlr_data) :: u32);
                      meta_content_size = 4 + hdlr_size + ilst_size;
                      meta_size = 8 + meta_content_size;
                      udta_size = 8 + meta_size;
                      b1 = mp4_write_box_header buf MP4_BOX_UDTA udta_size;
                      b2 = mp4_write_box_header b1 MP4_BOX_META meta_size;
                      b3 = buffer_append_be32 b2 0;
                      b4 = mp4_write_box_header b3 MP4_BOX_HDLR hdlr_size;
                      b5 = b4 @ hdlr_data;
                      b6 = mp4_write_box_header b5 MP4_BOX_ILST ilst_size
                  in (MP4TAG_OK, b6 @ ilst_content))))"

section \<open>Box-tree parser (\<open>mp4_parser.c\<close>)\<close>

text \<open>The two \<open>switch\<close> statements of \<open>mp4_validate_ftyp\<close>, as lists of their cases.\<close>

definition major_brands :: "u32 list" where
  "major_brands =
     [fourcc_of ''isom'', fourcc_of ''iso2'', fourcc_of ''iso5'', fourcc_of ''iso6'',
      fourcc_of ''mp41'', fourcc_of ''mp42'', fourcc_of ''M4A '', fourcc_of ''M4B '',
      fourcc_of ''M4P '', fourcc_of ''M4V '', fourcc_of ''M4VH'', fourcc_of ''avc1'',
      fourcc_of ''f4v '', fourcc_of ''qt  '', fourcc_of ''MSNV'', fourcc_of ''dash'',
      fourcc_of ''3gp4'', fourcc_of ''3gp5'', fourcc_of ''3gp6'', fourcc_of ''3g2a'']"

definition compatible_brands :: "u32 list" where
  "compatible_brands =
     [fourcc_of ''isom'', fourcc_of ''mp41'', fourcc_of ''mp42'', fourcc_of ''M4A '',
      fourcc_of ''M4B '', fourcc_of ''M4V '', fourcc_of ''avc1'']"

text \<open>The scan of the compatible brands; a failed read leaves the loop.\<close>

function compat_loop :: "file_handle \<Rightarrow> int \<Rightarrow> int \<Rightarrow> mp4tag_rc \<times> file_handle" where
  "compat_loop fh compat_offset compat_end =
     (if compat_offset + 4 \<le> compat_end then
        (case file_read fh 4 of
           (Inl rc, fh1) \<Rightarrow> (MP4TAG_ERR_NOT_MP4, fh1)
         | (Inr cb, fh1) \<Rightarrow>
             if be32 cb \<in> set compatible_brands then (MP4TAG_OK, fh1)
             else compat_loop fh1 (compat_offset + 4) compat_end)
      else (MP4TAG_ERR_NOT_MP4, fh))"
  by pat_completeness auto
termination
  by (relation "measure (\<lambda>(fh, compat_offset, compat_end). nat (compat_end - compat_offset))")
     auto

declare compat_loop.simps [simp del]

definition mp4_validate_ftyp :: "file_handle \<Rightarrow> mp4tag_rc \<times> file_handle" where
  "mp4_validate_ftyp fh =
     (case mp4_read_box_header (file_seek fh 0) of
        (Inl rc, fh1) \<Rightarrow> (MP4TAG_ERR_NOT_MP4, fh1)
      | (Inr box, fh1) \<Rightarrow>
          if box_type box \<noteq> MP4_BOX_FTYP then (MP4TAG_ERR_NOT_MP4, fh1)
          else if data_size box < 4 then (MP4TAG_ERR_NOT_MP4, fh1)
          else (case file_read fh1 4 of
                  (Inl rc, fh2) \<Rightarrow> (MP4TAG_ERR_NOT_MP4, fh2)
                | (Inr brand, fh2) \<Rightarrow>
                    if be32 brand \<in> set major_brands then (MP4TAG_OK, fh2)
                    else if data_size box \<ge> 12 then
                      compat_loop (file_seek fh2 (data_offset box + 8))
                        (data_offset box + 8) (data_offset box + data_size box)
                    else (MP4TAG_ERR_NOT_MP4, fh2)))"

text \<open>\<open>find_child_box\<close>: the first child of the wanted type between \<open>pos\<close> and \<open>end\<close>.\<close>

function find_child_loop ::
  "file_handle \<Rightarrow> int \<Rightarrow> int \<Rightarrow> u32 \<Rightarrow> (mp4tag_rc + mp4_box) \<times> file_handle" where
  "find_child_loop fh p e target =
     (if p + 8 \<le> e then
        (case mp4_read_box_header (file_seek fh p) of
           (Inl rc, fh1) \<Rightarrow> (Inl rc, fh1)
         | (Inr child, fh1) \<Rightarrow>
             if box_size child < 8 then (Inl MP4TAG_ERR_CORRUPT, fh1)
             else if box_type child = target then (Inr child, fh1)
             else find_child_loop fh1 (box_offset child + box_size child) e target)
      else (Inl MP4TAG_ERR_TAG_NOT_FOUND, fh))"
  by pat_completeness auto
termination
proof (relation "measure (\<lambda>(fh, p, e, target). nat (e - p))", goal_cases)
  case 1
  show ?case by simp
next
  case (2 fh p e target x y child)
  from 2(2) [symmetric] 2(3) have "box_offset child = p"
    by (simp add: read_box_header_offset file_seek_def)
  with 2 show ?case by simp
qed

declare find_child_loop.simps [simp del]

definition find_child_box ::
  "file_handle \<Rightarrow> int \<Rightarrow> int \<Rightarrow> u32 \<Rightarrow> (mp4tag_rc + mp4_box) \<times> file_handle" where
  "find_child_box fh parent_data_offset parent_data_size target =
     find_child_loop fh parent_data_offset (parent_data_offset + parent_data_size) target"

text \<open>\<open>find_free_after\<close>: offset and size of a \<open>free\<close> or \<open>skip\<close> box at \<open>after_offset\<close>.\<close>

definition find_free_after ::
  "file_handle \<Rightarrow> int \<Rightarrow> int \<Rightarrow> (mp4tag_rc + int \<times> int) \<times> file_handle" where
  "find_free_after fh after_offset container_end =
     (if after_offset + 8 > container_end then (Inl MP4TAG_ERR_TAG_NOT_FOUND, fh)
      else (case mp4_read_box_header (file_seek fh after_offset) of
              (Inl rc, fh1) \<Rightarrow> (Inl rc, fh1)
            | (Inr box, fh1) \<Rightarrow>
                if box_type box = MP4_BOX_FREE \<or> box_type box = MP4_BOX_SKIP
                then (Inr (box_offset box, box_size box), fh1)
                else (Inl MP4TAG_ERR_TAG_NOT_FOUND, fh1)))"

record mp4_file_info =
  valid :: bool
  ftyp_offset :: int
  moov_offset :: int
  moov_size :: int
  has_udta :: bool
  udta_offset :: int
  udta_size :: int
  has_meta :: bool
  meta_offset :: int
  meta_size :: int
  meta_has_hdlr :: bool
  has_ilst :: bool
  ilst_offset :: int
  ilst_size :: int
  has_free_after_ilst :: bool
  free_after_ilst_offset :: int
  free_after_ilst_size :: int
  mdat_offset :: int
  mdat_size :: int

text \<open>The structure after \<open>memset\<close> and the three assignments of \<open>-1\<close>.\<close>

definition info_init :: mp4_file_info where
  "info_init =
     \<lparr>valid = False, ftyp_offset = - 1, moov_offset = - 1, moov_size = 0,
      has_udta = False, udta_offset = 0, udta_size = 0,
      has_meta = False, meta_offset = 0, meta_size = 0, meta_has_hdlr = False,
      has_ilst = False, ilst_offset = 0, ilst_size = 0,
      has_free_after_ilst = False, free_after_ilst_offset = 0, free_after_ilst_size = 0,
      mdat_offset = - 1, mdat_size = 0\<rparr>"

definition note_top_level :: "mp4_file_info \<Rightarrow> mp4_box \<Rightarrow> mp4_file_info" where
  "note_top_level info box =
     (if box_type box = MP4_BOX_FTYP then info\<lparr>ftyp_offset := box_offset box\<rparr>
      else if box_type box = MP4_BOX_MOOV
        then info\<lparr>moov_offset := box_offset box, moov_size := box_size box\<rparr>
      else if box_type box = MP4_BOX_MDAT
        then info\<lparr>mdat_offset := box_offset box, mdat_size := box_size box\<rparr>
      else info)"

text \<open>The scan of the top-level boxes; a failed header read or a size below 8 ends it.\<close>

function top_level_scan ::
  "file_handle \<Rightarrow> mp4_file_info \<Rightarrow> int \<Rightarrow> int \<Rightarrow> mp4_file_info \<times> file_handle" where
  "top_level_scan fh info p fsize =
     (if p + 8 \<le> fsize then
        (case mp4_read_box_header (file_seek fh p) of
           (Inl rc, fh1) \<Rightarrow> (info, fh1)
         | (Inr box, fh1) \<Rightarrow>
             if box_size box < 8 then (info, fh1)
             else top_level_scan fh1 (note_top_level info box)
                    (box_offset box + box_size box) fsize)
      else (info, fh))"
  by pat_completeness auto
termination
proof (relation "measure (\<lambda>(fh, info, p, fsize). nat (fsize - p))", goal_cases)
  case 1
  show ?case by simp
next
  case (2 fh info p fsize x y box)
  from 2(2) [symmetric] 2(3) have "box_offset box = p"
    by (simp add: read_box_header_offset file_seek_def)
  with 2 show ?case by simp
qed

declare top_level_scan.simps [simp del]

text \<open>The descent from a located \<open>meta\<close> box: \<open>hdlr\<close>, \<open>ilst\<close> and the trailing free box.\<close>

definition parse_meta :: "file_handle \<Rightarrow> mp4_file_info \<Rightarrow> mp4_box \<Rightarrow> mp4_file_info \<times> file_handle" where
  "parse_meta fh info meta =
     (let info1 = info\<lparr>has_meta := True, meta_offset := box_offset meta,
                        meta_size := box_size meta\<rparr>;
          meta_content_offset = data_offset meta + 4;
          meta_content_size = (if data_size meta - 4 < 0 then 0 else data_size meta - 4)
      in case find_child_box fh meta_content_offset meta_content_size MP4_BOX_HDLR of
           (r_hdlr, fh1) \<Rightarrow>
             (let info2 = info1\<lparr>meta_has_hdlr := (case r_hdlr of Inr _ \<Rightarrow> True | Inl _ \<Rightarrow> False)\<rparr>
              in case find_child_box fh1 meta_content_offset meta_content_size MP4_BOX_ILST of
                   (Inl rc, fh2) \<Rightarrow> (info2, fh2)
                 | (Inr ilst, fh2) \<Rightarrow>
                     (let info3 = info2\<lparr>has_ilst := True, ilst_offset := box_offset ilst,
                                         ilst_size := box_size ilst\<rparr>
                      in case find_free_after fh2 (box_offset ilst + box_size ilst)
                                (box_offset meta + box_size meta) of
                           (Inl rc, fh3) \<Rightarrow> (info3\<lparr>has_free_after_ilst := False\<rparr>, fh3)
                         | (Inr (free_offset, free_size), fh3) \<Rightarrow>
                             (info3\<lparr>free_after_ilst_offset := free_offset,
                                     free_after_ilst_size := free_size,
                                     has_free_after_ilst := True\<rparr>, fh3))))"

text \<open>
  \<open>mp4_parse_structure\<close>: the result code, the \<open>info\<close> structure as the call leaves it,
  and the handle.
\<close>

definition mp4_parse_structure :: "file_handle \<Rightarrow> mp4tag_rc \<times> mp4_file_info \<times> file_handle" where
  "mp4_parse_structure fh =
     (if file_size fh < 8 then (MP4TAG_ERR_TRUNCATED, info_init, fh)
      else case top_level_scan fh info_init 0 (file_size fh) of
        (info, fh1) \<Rightarrow>
          if moov_offset info < 0 then (MP4TAG_ERR_NOT_MP4, info, fh1)
          else case mp4_read_box_header (file_seek fh1 (moov_offset info)) of
            (Inl rc, fh2) \<Rightarrow> (rc, info, fh2)
          | (Inr moov, fh2) \<Rightarrow>
              (case find_child_box fh2 (data_offset moov) (data_size moov) MP4_BOX_UDTA of
                 (Inl rc, fh3) \<Rightarrow> (MP4TAG_OK, info\<lparr>valid := True\<rparr>, fh3)
               | (Inr udta, fh3) \<Rightarrow>
                   (let info1 = info\<lparr>has_udta := True, udta_offset := box_offset udta,
                                      udta_size := box_size udta\<rparr>
                    in case find_child_box fh3 (data_offset udta) (data_size udta)
                              MP4_BOX_META of
                         (Inl rc, fh4) \<Rightarrow> (MP4TAG_OK, info1\<lparr>valid := True\<rparr>, fh4)
                       | (Inr meta, fh4) \<Rightarrow>
                           (case parse_meta fh4 info1 meta of
                              (info2, fh5) \<Rightarrow> (MP4TAG_OK, info2\<lparr>valid := True\<rparr>, fh5)))))"

section \<open>Decoding the whole ilst box (\<open>mp4_tags_parse_ilst\<close>)\<close>

text \<open>
  The loop over the items, with the list of simple tags collected so far.  A failed
  header read or an item smaller than a header ends the loop; an item that
  \<open>parse_ilst_item\<close> rejects is passed over.
\<close>

function ilst_items_loop ::
  "file_handle \<Rightarrow> mp4tag_simple_tag list \<Rightarrow> int \<Rightarrow> int
   \<Rightarrow> mp4tag_simple_tag list \<times> file_handle" where
  "ilst_items_loop fh acc p e =
     (if p + 8 \<le> e then
        (case mp4_read_box_header (file_seek fh p) of
           (Inl rc, fh1) \<Rightarrow> (acc, fh1)
         | (Inr item, fh1) \<Rightarrow>
             if box_size item < 8 then (acc, fh1)
             else (case parse_ilst_item fh1 item of
                     (Inr st, fh2) \<Rightarrow>
                       ilst_items_loop fh2 (acc @ [st]) (box_offset item + box_size item) e
                   | (Inl rc, fh2) \<Rightarrow>
                       ilst_items_loop fh2 acc (box_offset item + box_size item) e))
      else (acc, fh))"
  by pat_completeness auto
termination
proof (relation "measure (\<lambda>(fh, acc, p, e). nat (e - p))", goal_cases)
  case 1
  show ?case by simp
next
  case (2 fh acc p e x y item)
  from 2(2) [symmetric] 2(3) have "box_offset item = p"
    by (simp add: read_box_header_offset file_seek_def)
  with 2 show ?case by simp
next
  case (3 fh acc p e x y item)
  from 3(2) [symmetric] 3(3) have "box_offset item = p"
    by (simp add: read_box_header_offset file_seek_def)
  with 3 show ?case by simp
qed

declare ilst_items_loop.simps [simp del]

text \<open>
  \<open>mp4_tags_parse_ilst\<close> allocates the collection and its tag with two \<open>calloc\<close> calls;
  whether each of them succeeds is a parameter.  Each of its three pointer arguments may
  be \<open>NULL\<close>: the handle and the file map are options, and \<open>out_ok\<close> tells whether \<open>out\<close>
  is a valid pointer.  The handle is returned as the calls have left it.
\<close>

record alloc_env =
  coll_alloc_ok :: bool
  tag_alloc_ok :: bool

definition mp4_tags_parse_ilst ::
  "alloc_env \<Rightarrow> file_handle option \<Rightarrow> mp4_file_info option \<Rightarrow> bool
   \<Rightarrow> (mp4tag_rc + mp4tag_collection) \<times> file_handle option" where
  "mp4_tags_parse_ilst env fh info out_ok =
     (case fh of
        None \<Rightarrow> (Inl MP4TAG_ERR_INVALID_ARG, fh)
      | Some h \<Rightarrow>
          (case info of
             None \<Rightarrow> (Inl MP4TAG_ERR_INVALID_ARG, fh)
           | Some i \<Rightarrow>
               if \<not> out_ok then (Inl MP4TAG_ERR_INVALID_ARG, fh)
               else if \<not> has_ilst i then (Inl MP4TAG_ERR_NO_TAGS, fh)
               else if \<not> coll_alloc_ok env then (Inl MP4TAG_ERR_NO_MEMORY, fh)
               else if \<not> tag_alloc_ok env then (Inl MP4TAG_ERR_NO_MEMORY, fh)
               else (case ilst_items_loop h [] (ilst_offset i + 8) (ilst_offset i + ilst_size i) of
                       (sts, h1) \<Rightarrow>
                         (Inr \<lparr>tags = [\<lparr>target_type = MP4TAG_TARGET_ALBUM, track_uids = [],
                                        simple_tags = sts\<rparr>],
                               count = 1\<rparr>, Some h1))))"

section \<open>The context and the read operations (\<open>mp4tag.c\<close>)\<close>

record mp4tag_context =
  ctx_fh :: "file_handle option"
  path :: "string option"
  writable :: bool
  ctx_info :: mp4_file_info
  cached_tags :: "mp4tag_collection option"

definition invalidate_cache :: "mp4tag_context \<Rightarrow> mp4tag_context" where
  "invalidate_cache ctx = ctx\<lparr>cached_tags := None\<rparr>"

text \<open>
  The read operations take the outcome of the allocations of \<open>mp4_tags_parse_ilst\<close> as
  a parameter, too.
\<close>

definition mp4tag_read_tags ::
  "alloc_env \<Rightarrow> mp4tag_context \<Rightarrow> (mp4tag_rc + mp4tag_collection) \<times> mp4tag_context" where
  "mp4tag_read_tags env ctx =
     (case ctx_fh ctx of
        None \<Rightarrow> (Inl MP4TAG_ERR_NOT_OPEN, ctx)
      | Some fh \<Rightarrow>
          (case cached_tags ctx of
             Some coll \<Rightarrow> (Inr coll, ctx)
           | None \<Rightarrow>
               if \<not> has_ilst (ctx_info ctx) then (Inl MP4TAG_ERR_NO_TAGS, ctx)
               else (case mp4_tags_parse_ilst env (Some fh) (Some (ctx_info ctx)) True of
                       (Inl rc, fh1) \<Rightarrow> (Inl rc, ctx\<lparr>ctx_fh := fh1\<rparr>)
                     | (Inr coll, fh1) \<Rightarrow>
                         (Inr coll, ctx\<lparr>ctx_fh := fh1, cached_tags := Some coll\<rparr>))))"

text \<open>
  \<open>mp4tag_read_tag_string\<close> with a buffer of \<open>sz\<close> bytes: the result code, the string
  left in the buffer (\<open>None\<close> when the buffer is not written) and the context.
\<close>

definition mp4tag_read_tag_string ::
  "alloc_env \<Rightarrow> mp4tag_context \<Rightarrow> string option \<Rightarrow> nat
   \<Rightarrow> mp4tag_rc \<times> string option \<times> mp4tag_context" where
  "mp4tag_read_tag_string env ctx name sz =
     (if name = None \<or> sz = 0 then (MP4TAG_ERR_INVALID_ARG, None, ctx)
      else (case mp4tag_read_tags env ctx of
              (Inl rc, ctx1) \<Rightarrow> (rc, None, ctx1)
            | (Inr coll, ctx1) \<Rightarrow>
                (case find (\<lambda>st. st_name st \<noteq> None \<and> st_value st \<noteq> None \<and>
                                   str_casecmp (st_name st) name = 0)
                           (concat (map simple_tags (tags coll))) of
                   Some st \<Rightarrow>
                     (case str_copy sz (st_value st) of
                        (r, buf) \<Rightarrow>
                          (if r = 0 then MP4TAG_OK else MP4TAG_ERR_TAG_TOO_LARGE, Some buf, ctx1))
                 | None \<Rightarrow> (MP4TAG_ERR_TAG_NOT_FOUND, None, ctx1))))"

section \<open>The writer (\<open>mp4tag.c\<close>)\<close>

text \<open>\<open>write_zeros\<close>: zero bytes in chunks of at most 4096.\<close>

function write_zeros :: "file_handle \<Rightarrow> nat \<Rightarrow> mp4tag_rc \<times> file_handle" where
  "write_zeros fh cnt =
     (if cnt > 0 then
        (let chunk = (if cnt < 4096 then cnt else 4096)
         in case file_write fh (replicate chunk 0) of
              (rc, fh1) \<Rightarrow>
                if rc \<noteq> MP4TAG_OK then (MP4TAG_ERR_WRITE_FAILED, fh1)
                else write_zeros fh1 (cnt - chunk))
      else (MP4TAG_OK, fh))"
  by pat_completeness auto
termination
  by (relation "measure (\<lambda>(fh, cnt). cnt)") (auto split: if_splits)

declare write_zeros.simps [simp del]

text \<open>
  Strategy 1.  \<open>try_inplace\<close> reads and updates two fields of the context, \<open>info\<close> and
  the open handle; they are passed and returned explicitly.  The results of \<open>file_sync\<close>
  and of the final \<open>mp4_parse_structure\<close> are ignored, as in the source.
\<close>

definition try_inplace ::
  "mp4_file_info \<Rightarrow> file_handle \<Rightarrow> byte list \<Rightarrow> mp4tag_rc \<times> mp4_file_info \<times> file_handle" where
  "try_inplace info fh ilst_content =
     (if \<not> has_ilst info then (MP4TAG_ERR_NO_SPACE, info, fh)
      else
        (let new_ilst_size = 8 + (of_nat (length ilst_content) :: u32);
             available = ilst_size info
                         + (if has_free_after_ilst info then free_after_ilst_size info else 0)
         in
         if uint new_ilst_size > available then (MP4TAG_ERR_NO_SPACE, info, fh)
         else
           (case file_write (file_seek fh (ilst_offset info))
                   (mp4_write_box_header [] MP4_BOX_ILST new_ilst_size) of
              (rc1, fh1) \<Rightarrow>
                if rc1 \<noteq> MP4TAG_OK then (rc1, info, fh1)
                else
                  (case file_write fh1 ilst_content of
                     (rc2, fh2) \<Rightarrow>
                       if rc2 \<noteq> MP4TAG_OK then (rc2, info, fh2)
                       else
                         (let remaining = available - uint new_ilst_size
                          in case (if remaining \<ge> 8 then
                                     file_write fh2
                                       (snd (mp4_write_free_box [] (word_of_int remaining)))
                                   else if remaining > 0 then
                                     write_zeros fh2 (unat (word_of_int remaining :: u32))
                                   else (MP4TAG_OK, fh2)) of
                               (rc3, fh3) \<Rightarrow>
                                 if rc3 \<noteq> MP4TAG_OK then (rc3, info, fh3)
                                 else
                                   (case file_sync fh3 of
                                      (rc4, fh4) \<Rightarrow>
                                        (case mp4_parse_structure fh4 of
                                           (rc5, info', fh5) \<Rightarrow>
                                             (MP4TAG_OK, info', fh5))))))))"

text \<open>
  Strategy 2.  What the operating system does around the rewrite is a parameter: whether
  the temporary file can be created and opened, the failures on its handle, whether
  \<open>rename\<close> succeeds, and whether the path can be opened again (with the failures on
  that new handle).
\<close>

record os_env =
  tmp_create_ok :: bool
  tmp_open_ok :: bool
  tmp_faults :: "io_fault list"
  rename_ok :: bool
  reopen_ok :: bool
  reopen_faults :: "io_fault list"

text \<open>
  Copying \<open>bytes_left\<close> bytes from the source position to the temporary file through a
  64 KiB buffer.  A short or failed read leaves the loop without an error.
\<close>

function copy_bytes ::
  "file_handle \<Rightarrow> file_handle \<Rightarrow> int \<Rightarrow> mp4tag_rc \<times> file_handle \<times> file_handle" where
  "copy_bytes src tmp bytes_left =
     (if bytes_left > 0 then
        (case file_read_partial src (if bytes_left < 65536 then nat bytes_left else 65536) of
           (None, src1) \<Rightarrow> (MP4TAG_OK, src1, tmp)
         | (Some bs, src1) \<Rightarrow>
             if length bs = 0 then (MP4TAG_OK, src1, tmp)
             else (case file_write tmp bs of
                     (rc, tmp1) \<Rightarrow>
                       if rc \<noteq> MP4TAG_OK then (rc, src1, tmp1)
                       else copy_bytes src1 tmp1 (bytes_left - int (length bs))))
      else (MP4TAG_OK, src, tmp))"
  by pat_completeness auto
termination
  by (relation "measure (\<lambda>(src, tmp, bytes_left). nat bytes_left)") auto

declare copy_bytes.simps [simp del]

text \<open>First pass over the children of \<open>moov\<close>: the total size of all but \<open>udta\<close>.\<close>

function non_udta_total :: "file_handle \<Rightarrow> int \<Rightarrow> int \<Rightarrow> int \<Rightarrow> int \<times> file_handle" where
  "non_udta_total fh p e non_udta_size =
     (if p + 8 \<le> e then
        (case mp4_read_box_header (file_seek fh p) of
           (Inl rc, fh1) \<Rightarrow> (non_udta_size, fh1)
         | (Inr child, fh1) \<Rightarrow>
             if box_size child < 8 then (non_udta_size, fh1)
             else non_udta_total fh1 (box_offset child + box_size child) e
                    (if box_type child \<noteq> MP4_BOX_UDTA then non_udta_size + box_size child
                     else non_udta_size))
      else (non_udta_size, fh))"
  by pat_completeness auto
termination
proof (relation "measure (\<lambda>(fh, p, e, non_udta_size). nat (e - p))", goal_cases)
  case 1
  show ?case by simp
next
  case (2 fh p e non_udta_size x y child)
  from 2(2) [symmetric] 2(3) have "box_offset child = p"
    by (simp add: read_box_header_offset file_seek_def)
  with 2 show ?case by simp
qed

declare non_udta_total.simps [simp del]

text \<open>Second pass: every child but \<open>udta\<close> is copied.\<close>

function copy_children ::
  "file_handle \<Rightarrow> file_handle \<Rightarrow> int \<Rightarrow> int \<Rightarrow> mp4tag_rc \<times> file_handle \<times> file_handle" where
  "copy_children src tmp p e =
     (if p + 8 \<le> e then
        (case mp4_read_box_header (file_seek src p) of
           (Inl rc, src1) \<Rightarrow> (MP4TAG_OK, src1, tmp)
         | (Inr child, src1) \<Rightarrow>
             if box_size child < 8 then (MP4TAG_OK, src1, tmp)
             else if box_type child \<noteq> MP4_BOX_UDTA then
               (case copy_bytes (file_seek src1 (box_offset child)) tmp (box_size child) of
                  (rc, src2, tmp1) \<Rightarrow>
                    if rc \<noteq> MP4TAG_OK then (rc, src2, tmp1)
                    else copy_children src2 tmp1 (box_offset child + box_size child) e)
             else copy_children src1 tmp (box_offset child + box_size child) e)
      else (MP4TAG_OK, src, tmp))"
  by pat_completeness auto
termination
proof (relation "measure (\<lambda>(src, tmp, p, e). nat (e - p))", goal_cases)
  case 1
  show ?case by simp
next
  case (2 src tmp p e x y child)
  from 2(2) [symmetric] 2(3) have "box_offset child = p"
    by (simp add: read_box_header_offset file_seek_def)
  with 2 show ?case by simp
next
  case (3 src tmp p e x y child)
  from 3(2) [symmetric] 3(3) have "box_offset child = p"
    by (simp add: read_box_header_offset file_seek_def)
  with 3 show ?case by simp
qed

declare copy_children.simps [simp del]

text \<open>
  The walk over the top-level boxes of the source: \<open>moov\<close> is rebuilt with the new
  \<open>udta\<close> appended, every other box is copied.  The result code is the source's
  \<open>result\<close> variable when the loop is left.
\<close>

function rewrite_boxes ::
  "file_handle \<Rightarrow> file_handle \<Rightarrow> byte list \<Rightarrow> int \<Rightarrow> int
   \<Rightarrow> mp4tag_rc \<times> file_handle \<times> file_handle" where
  "rewrite_boxes src tmp udta_buf p src_size =
     (if p < src_size then
        (case mp4_read_box_header (file_seek src p) of
           (Inl rc, src1) \<Rightarrow> (MP4TAG_OK, src1, tmp)
         | (Inr box, src1) \<Rightarrow>
             if box_size box < 8 then (MP4TAG_OK, src1, tmp)
             else if box_type box = MP4_BOX_MOOV then
               (case non_udta_total src1 (data_offset box) (box_offset box + box_size box) 0 of
                  (non_udta_size, src2) \<Rightarrow>
                    (let new_moov_size = 8 + (word_of_int non_udta_size :: u32)
                                         + of_nat (length udta_buf)
                     in case file_write tmp (mp4_write_box_header [] MP4_BOX_MOOV new_moov_size) of
                          (rc1, tmp1) \<Rightarrow>
                            if rc1 \<noteq> MP4TAG_OK then (rc1, src2, tmp1)
                            else
                              (case copy_children src2 tmp1 (data_offset box)
                                      (box_offset box + box_size box) of
                                 (rc2, src3, tmp2) \<Rightarrow>
                                   if rc2 \<noteq> MP4TAG_OK then (rc2, src3, tmp2)
                                   else
                                     (case file_write tmp2 udta_buf of
                                        (rc3, tmp3) \<Rightarrow>
                                          if rc3 \<noteq> MP4TAG_OK then (rc3, src3, tmp3)
                                          else rewrite_boxes src3 tmp3 udta_buf
                                                 (box_offset box + box_size box) src_size))))
             else
               (case copy_bytes (file_seek src1 (box_offset box)) tmp (box_size box) of
                  (rc, src2, tmp1) \<Rightarrow>
                    if rc \<noteq> MP4TAG_OK then (rc, src2, tmp1)
                    else rewrite_boxes src2 tmp1 udta_buf
                           (box_offset box + box_size box) src_size))
      else (MP4TAG_OK, src, tmp))"
  by pat_completeness auto
termination
proof (relation "measure (\<lambda>(src, tmp, udta_buf, p, src_size). nat (src_size - p))", goal_cases)
  case 1
  show ?case by simp
next
  case (2 src tmp udta_buf p src_size x y box)
  from 2(2) [symmetric] 2(3) have "box_offset box = p"
    by (simp add: read_box_header_offset file_seek_def)
  with 2 show ?case by simp
next
  case (3 src tmp udta_buf p src_size x y box)
  from 3(2) [symmetric] 3(3) have "box_offset box = p"
    by (simp add: read_box_header_offset file_seek_def)
  with 3 show ?case by simp
qed

declare rewrite_boxes.simps [simp del]

text \<open>
  \<open>rewrite_file\<close>, called with the context's open handle \<open>fh\<close>.  After a failure before
  the handles are closed the context keeps the source handle; after \<open>rename\<close> the
  context holds a fresh handle on the path, or none when opening fails.
\<close>

definition rewrite_file ::
  "os_env \<Rightarrow> mp4tag_context \<Rightarrow> file_handle \<Rightarrow> byte list \<Rightarrow> mp4tag_rc \<times> mp4tag_context" where
  "rewrite_file env ctx fh udta_buf =
     (if path ctx = None then (MP4TAG_ERR_INVALID_ARG, ctx)
      else if \<not> tmp_create_ok env then (MP4TAG_ERR_IO, ctx)
      else if \<not> tmp_open_ok env then (MP4TAG_ERR_IO, ctx)
      else
        (case rewrite_boxes fh
                \<lparr>fbytes = [], fh_writable = True, pos = 0, faults = tmp_faults env\<rparr>
                udta_buf 0 (file_size fh) of
           (result, src, tmp) \<Rightarrow>
             if result \<noteq> MP4TAG_OK then (result, ctx\<lparr>ctx_fh := Some src\<rparr>)
             else
               (case file_sync tmp of
                  (rc, tmp1) \<Rightarrow>
                    if rc \<noteq> MP4TAG_OK then (MP4TAG_ERR_IO, ctx\<lparr>ctx_fh := Some src\<rparr>)
                    else if \<not> rename_ok env then
                      (MP4TAG_ERR_RENAME_FAILED,
                       ctx\<lparr>ctx_fh :=
                             (if reopen_ok env
                              then Some \<lparr>fbytes = fbytes src, fh_writable = writable ctx,
                                         pos = 0, faults = reopen_faults env\<rparr>
                              else None)\<rparr>)
                    else if \<not> reopen_ok env then
                      (MP4TAG_ERR_IO, ctx\<lparr>ctx_fh := None\<rparr>)
                    else
                      (case mp4_parse_structure
                              \<lparr>fbytes = fbytes tmp1, fh_writable = writable ctx, pos = 0,
                               faults = reopen_faults env\<rparr> of
                         (rc5, info', fh5) \<Rightarrow>
                           (MP4TAG_OK, ctx\<lparr>ctx_fh := Some fh5, ctx_info := info'\<rparr>)))))"

text \<open>\<open>mp4tag_write_tags\<close>; the collection pointer may be \<open>NULL\<close>.\<close>

definition mp4tag_write_tags ::
  "os_env \<Rightarrow> mp4tag_context \<Rightarrow> mp4tag_collection option \<Rightarrow> mp4tag_rc \<times> mp4tag_context" where
  "mp4tag_write_tags env ctx tgs =
     (if tgs = None then (MP4TAG_ERR_INVALID_ARG, ctx)
      else case ctx_fh ctx of
        None \<Rightarrow> (MP4TAG_ERR_NOT_OPEN, ctx)
      | Some fh \<Rightarrow>
          if \<not> writable ctx then (MP4TAG_ERR_READ_ONLY, ctx)
          else
            (let ctx1 = invalidate_cache ctx
             in case mp4_tags_serialize_ilst tgs [] of
                  (rc, ilst_content) \<Rightarrow>
                    if rc \<noteq> MP4TAG_OK then (rc, ctx1)
                    else
                      (case (if has_ilst (ctx_info ctx1)
                             then try_inplace (ctx_info ctx1) fh ilst_content
                             else (MP4TAG_ERR_NO_SPACE, ctx_info ctx1, fh)) of
                         (rc1, info1, fh1) \<Rightarrow>
                           (let ctx2 = ctx1\<lparr>ctx_fh := Some fh1, ctx_info := info1\<rparr>
                            in if has_ilst (ctx_info ctx1) \<and> rc1 = MP4TAG_OK
                               then (MP4TAG_OK, ctx2)
                               else
                                 (case mp4_tags_build_udta tgs [] of
                                    (rc2, udta_buf) \<Rightarrow>
                                      if rc2 \<noteq> MP4TAG_OK then (rc2, ctx2)
                                      else rewrite_file env ctx2 fh1 udta_buf)))))"

section \<open>Auxiliary notions for the proofs\<close>

text \<open>The value accumulated by \<open>scan_digits\<close> over a run of digits.\<close>

definition digits_value :: "nat \<Rightarrow> string \<Rightarrow> nat" where
  "digits_value acc cs = foldl (\<lambda>a c. a * 10 + (of_char c - 48)) acc cs"

text \<open>
  A box of type \<open>t\<close> and total size \<open>sz\<close> is located at offset \<open>off\<close> of a file: reading
  a box header there, with no system call failing, succeeds with these values.
\<close>

definition box_located :: "byte list \<Rightarrow> u32 \<Rightarrow> int \<Rightarrow> int \<Rightarrow> bool" where
  "box_located bytes t off sz =
     (case fst (mp4_read_box_header
                  \<lparr>fbytes = bytes, fh_writable = False, pos = off, faults = []\<rparr>) of
        Inr b \<Rightarrow> box_type b = t \<and> box_size b = sz \<and> box_offset b = off
      | Inl rc \<Rightarrow> False)"

text \<open>
  A small file used to run the operations on: \<open>ftyp\<close> (brand \<open>M4A\<close>), \<open>moov\<close> with
  \<open>mvhd\<close> and \<open>udta/meta/hdlr/ilst/free\<close>, and \<open>mdat\<close>.  The \<open>ilst\<close> box holds a title,
  an item without a \<open>data\<close> child and a cover image.
\<close>

definition box_bytes :: "u32 \<Rightarrow> byte list \<Rightarrow> byte list" where
  "box_bytes t payload = mp4_write_box_header [] t (8 + of_nat (length payload)) @ payload"

definition sample_items :: "byte list" where
  "sample_items =
     box_bytes MP4_TAG_NAM
       (box_bytes MP4_BOX_DATA (be32_bytes MP4_DATA_UTF8 @ be32_bytes 0 @ map byte_of_char ''Hi''))
     @ box_bytes (fourcc_of ''xxxx'') []
     @ box_bytes MP4_TAG_COVR
         (box_bytes MP4_BOX_DATA (be32_bytes MP4_DATA_JPEG @ be32_bytes 0 @ [0xFF, 0xD8, 0xFF, 0xE0]))"

definition sample_file :: "byte list" where
  "sample_file =
     box_bytes MP4_BOX_FTYP (map byte_of_char ''M4A '' @ [0, 0, 0, 0])
     @ box_bytes MP4_BOX_MOOV
         (box_bytes (fourcc_of ''mvhd'') [0, 0, 0, 0]
          @ box_bytes MP4_BOX_UDTA
              (box_bytes MP4_BOX_META
                 ([0, 0, 0, 0] @ box_bytes MP4_BOX_HDLR hdlr_data
                  @ box_bytes MP4_BOX_ILST sample_items
                  @ box_bytes MP4_BOX_FREE [0, 0, 0, 0, 0, 0, 0, 0])))
     @ box_bytes MP4_BOX_MDAT [1, 2, 3, 4]"

definition sample_handle :: "bool \<Rightarrow> io_fault list \<Rightarrow> file_handle" where
  "sample_handle w fs = \<lparr>fbytes = sample_file, fh_writable = w, pos = 0, faults = fs\<rparr>"

text \<open>The file map of the sample file.\<close>

definition sample_info :: mp4_file_info where
  "sample_info =
     \<lparr>valid = True, ftyp_offset = 0, moov_offset = 16, moov_size = 159,
      has_udta = True, udta_offset = 36, udta_size = 139,
      has_meta = True, meta_offset = 44, meta_size = 131, meta_has_hdlr = True,
      has_ilst = True, ilst_offset = 89, ilst_size = 70,
      has_free_after_ilst = True, free_after_ilst_offset = 159, free_after_ilst_size = 16,
      mdat_offset = 175, mdat_size = 12\<rparr>"

text \<open>A context opened on the sample file, and the two simple tags the file decodes to.\<close>

definition sample_ctx :: "bool \<Rightarrow> io_fault list \<Rightarrow> mp4tag_context" where
  "sample_ctx w fs =
     \<lparr>ctx_fh = Some (sample_handle w fs), path = Some ''a.m4a'', writable = w,
      ctx_info = sample_info, cached_tags = None\<rparr>"

definition sample_title :: mp4tag_simple_tag where
  "sample_title = SimpleTag (Some ''TITLE'') (Some ''Hi'') None None True []"

definition sample_cover :: mp4tag_simple_tag where
  "sample_cover = SimpleTag (Some ''COVER_ART'') None (Some [0xFF, 0xD8, 0xFF, 0xE0]) None True []"

definition album_collection :: "mp4tag_simple_tag list \<Rightarrow> mp4tag_collection" where
  "album_collection sts =
     \<lparr>tags = [\<lparr>target_type = MP4TAG_TARGET_ALBUM, track_uids = [], simple_tags = sts\<rparr>],
      count = 1\<rparr>"

text \<open>An environment in which both allocations of \<open>mp4_tags_parse_ilst\<close> succeed.\<close>

definition allocs_ok :: alloc_env where
  "allocs_ok = \<lparr>coll_alloc_ok = True, tag_alloc_ok = True\<rparr>"


text \<open>
  A file of 72 bytes: \<open>ftyp\<close>, then \<open>moov/udta/meta\<close> holding an empty \<open>ilst\<close> and, as the
  last 8 bytes of \<open>meta\<close>, the header of a \<open>free\<close> box that declares 20 bytes, and then an
  \<open>mdat\<close> box of 12 bytes at offset 60.  The handle is one opened for writing, and the
  record is the file map \<open>mp4_parse_structure\<close> computes for the file.
\<close>

definition overlap_file :: "byte list" where
  "overlap_file =
     box_bytes MP4_BOX_FTYP (map byte_of_char ''M4A '' @ [0, 0, 0, 0])
     @ box_bytes MP4_BOX_MOOV
         (box_bytes MP4_BOX_UDTA
            (box_bytes MP4_BOX_META
               ([0, 0, 0, 0] @ box_bytes MP4_BOX_ILST []
                @ mp4_write_box_header [] MP4_BOX_FREE 20)))
     @ box_bytes MP4_BOX_MDAT [1, 2, 3, 4]"

definition overlap_handle :: file_handle where
  "overlap_handle = \<lparr>fbytes = overlap_file, fh_writable = True, pos = 0, faults = []\<rparr>"

definition overlap_info :: mp4_file_info where
  "overlap_info =
     \<lparr>valid = True, ftyp_offset = 0, moov_offset = 16, moov_size = 44,
      has_udta = True, udta_offset = 24, udta_size = 36,
      has_meta = True, meta_offset = 32, meta_size = 28, meta_has_hdlr = False,
      has_ilst = True, ilst_offset = 44, ilst_size = 8,
      has_free_after_ilst = True, free_after_ilst_offset = 52, free_after_ilst_size = 20,
      mdat_offset = 60, mdat_size = 12\<rparr>"

text \<open>
  A title too long for the 86 bytes available in the sample file, its serialized item, the
  \<open>udta\<close> box built around it, and an environment in which no system call fails.
\<close>

definition long_title :: mp4tag_simple_tag where
  "long_title =
     SimpleTag (Some ''TITLE'')
       (Some ''A title that is too long for the space of the old item list'') None None True []"

definition plain_env :: os_env where
  "plain_env = \<lparr>tmp_create_ok = True, tmp_open_ok = True, tmp_faults = [], rename_ok = True,
                 reopen_ok = True, reopen_faults = []\<rparr>"

definition long_title_item :: "byte list" where
  "long_title_item =
     box_bytes MP4_TAG_NAM
       (box_bytes MP4_BOX_DATA
          (be32_bytes MP4_DATA_UTF8 @ be32_bytes 0
           @ map byte_of_char ''A title that is too long for the space of the old item list''))"

definition long_title_udta :: "byte list" where
  "long_title_udta =
     box_bytes MP4_BOX_UDTA
       (box_bytes MP4_BOX_META
          ([0, 0, 0, 0] @ box_bytes MP4_BOX_HDLR hdlr_data
           @ box_bytes MP4_BOX_ILST long_title_item))"

section \<open>Basic facts\<close>

lemmas io_defs =
  file_read_def file_seek_def file_tell_def file_size_def next_fault_def pop_fault_def

lemma wrap_int64_id:
  "- 9223372036854775808 \<le> x \<Longrightarrow> x < 9223372036854775808 \<Longrightarrow> wrap_int64 x = x"
  by (simp add: wrap_int64_def)

lemma wrap_int64_u32 [simp]: "wrap_int64 (uint (x :: u32) - 8) = uint x - 8"
proof -
  have "0 \<le> uint x" and "uint x < 4294967296"
    using uint_lt2p [of x] by simp_all
  then show ?thesis by (intro wrap_int64_id) simp_all
qed

lemmas fourcc_eval = fourcc_defs fourcc_of_def MP4_FOURCC_def be32_def byte_of_char_def

lemmas char_eval = char_of_byte_def char_of_def bit_Suc_0_iff

lemma be32_be32_bytes: "be32 (be32_bytes v) = v"
  unfolding be32_def be32_bytes_def
  apply simp
  apply (rule bit_word_eqI)
  subgoal for n
    apply (cases "n < 8"; cases "n < 16"; cases "n < 24")
           apply (auto simp: bit_simps)
    done
  done

lemma dec_str_single: "dec_str n = [c] \<longleftrightarrow> n < 10 \<and> c = digit_char n"
proof (cases "n < 10")
  case True
  then show ?thesis by (auto simp: dec_str.simps [of n])
next
  case False
  have "dec_str (n div 10) \<noteq> []" by (subst dec_str.simps) simp
  with False show ?thesis by (auto simp: dec_str.simps [of n])
qed

lemma length_be32_bytes [simp]: "length (be32_bytes v) = 4"
  by (simp add: be32_bytes_def)

lemma digit_char_eq_iff: "d < 10 \<Longrightarrow> e < 10 \<Longrightarrow> digit_char d = digit_char e \<longleftrightarrow> d = e"
  unfolding digit_char_def
  by (rule nth_eq_iff_index_eq) simp_all

subsection \<open>Evaluation on concrete inputs\<close>

lemma sample_bytes:
  "sample_file =
     [0, 0, 0, 16, 102, 116, 121, 112, 77, 52, 65, 32, 0, 0, 0, 0, 0, 0, 0, 159, 109, 111,
      111, 118, 0, 0, 0, 12, 109, 118, 104, 100, 0, 0, 0, 0, 0, 0, 0, 139, 117, 100, 116,
      97, 0, 0, 0, 131, 109, 101, 116, 97, 0, 0, 0, 0, 0, 0, 0, 33, 104, 100, 108, 114, 0,
      0, 0, 0, 0, 0, 0, 0, 109, 100, 105, 114, 97, 112, 112, 108, 0, 0, 0, 0, 0, 0, 0, 0,
      0, 0, 0, 0, 70, 105, 108, 115, 116, 0, 0, 0, 26, 169, 110, 97, 109, 0, 0, 0, 18,
      100, 97, 116, 97, 0, 0, 0, 1, 0, 0, 0, 0, 72, 105, 0, 0, 0, 8, 120, 120, 120, 120,
      0, 0, 0, 28, 99, 111, 118, 114, 0, 0, 0, 20, 100, 97, 116, 97, 0, 0, 0, 13, 0, 0, 0,
      0, 255, 216, 255, 224, 0, 0, 0, 16, 102, 114, 101, 101, 0, 0, 0, 0, 0, 0, 0, 0, 0,
      0, 0, 12, 109, 100, 97, 116, 1, 2, 3, 4]"
  by (simp add: sample_file_def sample_items_def box_bytes_def mp4_write_box_header_def
                buffer_append_be32_def be32_bytes_def hdlr_data_def fourcc_eval
                MP4_DATA_UTF8_def MP4_DATA_JPEG_def)

lemmas data_type_defs =
  MP4_DATA_IMPLICIT_def MP4_DATA_UTF8_def MP4_DATA_UTF16_def MP4_DATA_JPEG_def
  MP4_DATA_PNG_def MP4_DATA_INTEGER_def

lemmas rd_eval =
  sample_handle_def sample_bytes mp4_read_box_header_def io_defs Let_def mk_box_def wrap_int64_def
  fourcc_eval

lemmas name_eval =
  mp4_tag_name_to_fourcc_def mp4_tag_fourcc_to_name_def item_name_def g_tag_map_def
  str_casecmp_def to_upper_def char_eval mp4_str_to_fourcc_def mp4_fourcc_to_str_def c_str_def
  fourcc_eval

lemmas structure_eval =
  rd_eval mp4_parse_structure_def top_level_scan.simps find_child_box_def
  find_child_loop.simps parse_meta_def find_free_after_def note_top_level_def info_init_def
  sample_info_def

lemmas ilst_eval =
  rd_eval sample_info_def mp4_tags_parse_ilst_def allocs_ok_def ilst_items_loop.simps
  parse_ilst_item_def
  parse_item_loop.simps parse_data_box_def int_atom_value_def album_collection_def
  sample_title_def sample_cover_def name_eval is_int_atom_def data_type_defs

lemmas encode_eval =
  serialize_tag_item_def item_content_def mp4_write_box_header_def buffer_append_be32_def
  be32_bytes_def name_eval data_type_defs Let_def

section \<open>Decimal printing and scanning\<close>

lemma digit_char_facts:
  assumes "d < 10"
  shows "is_digit (digit_char d)" "of_char (digit_char d) - 48 = d"
        "\<not> is_space (digit_char d)" "digit_char d \<noteq> CHR ''-''" "digit_char d \<noteq> CHR ''+''"
proof -
  from assms have "d \<in> {0, 1, 2, 3, 4, 5, 6, 7, 8, 9}" by auto
  then show "is_digit (digit_char d)" "of_char (digit_char d) - 48 = d"
        "\<not> is_space (digit_char d)" "digit_char d \<noteq> CHR ''-''" "digit_char d \<noteq> CHR ''+''"
    by (auto simp: digit_char_def is_digit_def is_space_def)
qed

lemma dec_str_Cons: "\<exists>d r. d < 10 \<and> dec_str n = digit_char d # r"
proof (induction n rule: dec_str.induct)
  case (1 n)
  show ?case
  proof (cases "n < 10")
    case True
    then show ?thesis by (subst dec_str.simps) auto
  next
    case False
    with 1 obtain d r where "d < 10" "dec_str (n div 10) = digit_char d # r" by auto
    with False show ?thesis by (subst dec_str.simps) auto
  qed
qed

lemma scan_digits_append:
  "\<forall>c \<in> set xs. is_digit c \<Longrightarrow> scan_digits acc (xs @ r) = scan_digits (digits_value acc xs) r"
  by (induction xs arbitrary: acc) (auto simp: digits_value_def)

lemma dec_str_digits: "c \<in> set (dec_str n) \<Longrightarrow> is_digit c"
proof (induction n rule: dec_str.induct)
  case (1 n)
  then show ?case
    by (subst (asm) (2) dec_str.simps) (auto simp: digit_char_facts split: if_splits)
qed

lemma dec_str_value: "digits_value acc (dec_str n) = acc * 10 ^ length (dec_str n) + n"
proof (induction n arbitrary: acc rule: dec_str.induct)
  case (1 n)
  show ?case
  proof (cases "n < 10")
    case True
    then show ?thesis
      by (subst (1 2) dec_str.simps) (simp add: digits_value_def digit_char_facts)
  next
    case False
    have "digits_value acc (dec_str n)
          = digits_value acc (dec_str (n div 10)) * 10 + n mod 10"
      using False by (subst dec_str.simps) (simp add: digits_value_def digit_char_facts)
    also have "\<dots> = (acc * 10 ^ length (dec_str (n div 10)) + n div 10) * 10 + n mod 10"
      using 1 [OF False] by simp
    also have "\<dots> = acc * 10 ^ length (dec_str n) + n"
      using False by (subst (2) dec_str.simps) (simp add: algebra_simps)
    finally show ?thesis .
  qed
qed

lemma scan_digits_stop: "r = [] \<or> \<not> is_digit (hd r) \<Longrightarrow> scan_digits acc r = (acc, r)"
  by (cases r) auto

lemma scan_u_dec_str:
  assumes "r = [] \<or> \<not> is_digit (hd r)"
  shows "scan_u (dec_str n @ r) = Some (of_nat n, r)"
proof -
  obtain d t where d: "d < 10" "dec_str n = digit_char d # t"
    using dec_str_Cons by blast
  have "scan_digits 0 (dec_str n @ r) = (n, r)"
    using assms by (simp add: scan_digits_append dec_str_digits dec_str_value scan_digits_stop)
  then show ?thesis
    using d by (simp add: scan_u_def digit_char_facts)
qed

lemma sscanf_pair:
  "sscanf_u_slash_u (dec_str N @ ''/'' @ dec_str T) 0 0 = (2, of_nat N, of_nat T)"
proof -
  have "scan_u (dec_str N @ ''/'' @ dec_str T) = Some (of_nat N, ''/'' @ dec_str T)"
    by (rule scan_u_dec_str) (simp add: is_digit_def)
  moreover have "scan_u (dec_str T) = Some (of_nat T, [])"
    using scan_u_dec_str [of "[]" T] by simp
  ultimately show ?thesis by (simp add: sscanf_u_slash_u_def)
qed

lemma be16_split: "be16 (ucast (drop_bit 8 w)) (ucast w) = (ucast (w :: u32) :: 16 word)"
  unfolding be16_def
  apply (rule bit_word_eqI)
  subgoal for n
    apply (cases "n < 8")
     apply (auto simp: bit_simps)
    done
  done

lemma unat_ucast_of_nat16: "N < 65536 \<Longrightarrow> unat (ucast (of_nat N :: u32) :: 16 word) = N"
  apply (simp add: unsigned_ucast_eq unsigned_of_nat take_bit_nat_eq_self)
  done

section \<open>Reading never changes the file\<close>

lemma file_read_fbytes: "file_read fh n = (r, fh') \<Longrightarrow> fbytes fh' = fbytes fh"
  by (auto simp: io_defs split: if_splits)

lemma read_box_header_fbytes: "mp4_read_box_header fh = (r, fh') \<Longrightarrow> fbytes fh' = fbytes fh"
  by (auto simp: mp4_read_box_header_def Let_def dest!: file_read_fbytes
           split: if_splits prod.splits sum.splits)

lemma read_box_header_nofault:
  assumes "mp4_read_box_header fh = (Inr b, fh')"
  shows "fst (mp4_read_box_header \<lparr>fbytes = fbytes fh, fh_writable = w, pos = pos fh, faults = []\<rparr>)
         = Inr b"
  using assms
  by (simp add: mp4_read_box_header_def Let_def io_defs split: if_splits)

lemma read_box_header_not_Inl_OK: "mp4_read_box_header fh \<noteq> (Inl MP4TAG_OK, fh')"
  by (auto simp: mp4_read_box_header_def Let_def file_read_def split: if_splits prod.splits sum.splits)

lemma read_at_located:
  assumes "mp4_read_box_header (file_seek fh p) = (Inr b, fh')"
  shows "box_located (fbytes fh) (box_type b) (box_offset b) (box_size b)"
proof -
  have off: "box_offset b = p"
    using read_box_header_offset [OF assms] by (simp add: file_seek_def)
  have "fst (mp4_read_box_header \<lparr>fbytes = fbytes fh, fh_writable = False, pos = p, faults = []\<rparr>)
        = Inr b"
    using read_box_header_nofault [OF assms, of False] by (simp add: file_seek_def)
  with off show ?thesis by (simp add: box_located_def)
qed

lemma find_child_loop_props:
  "find_child_loop fh p e t = (r, fh') \<Longrightarrow>
   fbytes fh' = fbytes fh \<and>
   (case r of Inl rc \<Rightarrow> True
    | Inr b \<Rightarrow> box_type b = t \<and> 8 \<le> box_size b \<and>
               box_located (fbytes fh) t (box_offset b) (box_size b))"
proof (induction fh p e t rule: find_child_loop.induct)
  case (1 fh p e t)
  show ?case
  proof (cases "p + 8 \<le> e")
    case False
    with 1(2) show ?thesis by (auto simp: find_child_loop.simps [of fh p e t])
  next
    case True
    obtain r1 fh1 where rd: "mp4_read_box_header (file_seek fh p) = (r1, fh1)"
      by (cases "mp4_read_box_header (file_seek fh p)")
    have fb: "fbytes fh1 = fbytes fh"
      using read_box_header_fbytes [OF rd] by (simp add: file_seek_def)
    show ?thesis
    proof (cases r1)
      case (Inl rc)
      with 1(2) True rd fb show ?thesis
        by (auto simp: find_child_loop.simps [of fh p e t])
    next
      case (Inr child)
      have loc: "box_located (fbytes fh) (box_type child) (box_offset child) (box_size child)"
        using rd Inr by (auto intro: read_at_located)
      show ?thesis
      proof (cases "box_size child < 8 \<or> box_type child = t")
        case True
        with 1(2) \<open>p + 8 \<le> e\<close> rd Inr fb loc show ?thesis
          by (auto simp: find_child_loop.simps [of fh p e t] split: if_splits)
      next
        case False
        with 1(2) \<open>p + 8 \<le> e\<close> rd Inr
        have "find_child_loop fh1 (box_offset child + box_size child) e t = (r, fh')"
          by (simp add: find_child_loop.simps [of fh p e t])
        with 1(1) [OF \<open>p + 8 \<le> e\<close> rd [symmetric] _ _ _] Inr False fb
        show ?thesis by (auto split: sum.splits)
      qed
    qed
  qed
qed

lemma find_child_box_props:
  "find_child_box fh off sz t = (Inr b, fh') \<Longrightarrow>
   fbytes fh' = fbytes fh \<and> box_type b = t \<and> 8 \<le> box_size b \<and>
   box_located (fbytes fh) t (box_offset b) (box_size b)"
  using find_child_loop_props [of fh off "off + sz" t "Inr b" fh']
  by (simp add: find_child_box_def)

lemma find_child_box_fbytes:
  "find_child_box fh off sz t = (r, fh') \<Longrightarrow> fbytes fh' = fbytes fh"
  using find_child_loop_props [of fh off "off + sz" t r fh']
  by (simp add: find_child_box_def)

lemma find_free_after_props:
  "find_free_after fh a c = (r, fh') \<Longrightarrow>
   fbytes fh' = fbytes fh \<and>
   (case r of Inl rc \<Rightarrow> True
    | Inr (off, sz) \<Rightarrow> off = a \<and>
        (box_located (fbytes fh) MP4_BOX_FREE off sz \<or> box_located (fbytes fh) MP4_BOX_SKIP off sz))"
proof (cases "a + 8 > c")
  case True
  assume "find_free_after fh a c = (r, fh')"
  with True show ?thesis by (auto simp: find_free_after_def)
next
  case False
  assume ff: "find_free_after fh a c = (r, fh')"
  obtain r1 fh1 where rd: "mp4_read_box_header (file_seek fh a) = (r1, fh1)"
    by (cases "mp4_read_box_header (file_seek fh a)")
  have fb: "fbytes fh1 = fbytes fh"
    using read_box_header_fbytes [OF rd] by (simp add: file_seek_def)
  show ?thesis
  proof (cases r1)
    case (Inl rc)
    with ff False rd fb show ?thesis by (auto simp: find_free_after_def)
  next
    case (Inr box)
    have loc: "box_located (fbytes fh) (box_type box) (box_offset box) (box_size box)"
      using rd Inr by (auto intro: read_at_located)
    have off: "box_offset box = a"
      using read_box_header_offset [of "file_seek fh a" box fh1] rd Inr
      by (simp add: file_seek_def)
    from ff False rd Inr fb loc off show ?thesis
      by (auto simp: find_free_after_def split: if_splits)
  qed
qed

lemma top_level_scan_fbytes:
  "top_level_scan fh info p fsize = (info', fh') \<Longrightarrow> fbytes fh' = fbytes fh"
proof (induction fh info p fsize rule: top_level_scan.induct)
  case (1 fh info p fsize)
  show ?case
  proof (cases "p + 8 \<le> fsize")
    case False
    with 1(2) show ?thesis by (auto simp: top_level_scan.simps [of fh info p fsize])
  next
    case True
    obtain r1 fh1 where rd: "mp4_read_box_header (file_seek fh p) = (r1, fh1)"
      by (cases "mp4_read_box_header (file_seek fh p)")
    have fb: "fbytes fh1 = fbytes fh"
      using read_box_header_fbytes [OF rd] by (simp add: file_seek_def)
    show ?thesis
    proof (cases r1)
      case (Inl rc)
      with 1(2) True rd fb show ?thesis
        by (auto simp: top_level_scan.simps [of fh info p fsize])
    next
      case (Inr box)
      show ?thesis
      proof (cases "box_size box < 8")
        case True
        with 1(2) \<open>p + 8 \<le> fsize\<close> rd Inr fb show ?thesis
          by (auto simp: top_level_scan.simps [of fh info p fsize])
      next
        case False
        with 1(2) \<open>p + 8 \<le> fsize\<close> rd Inr
        have "top_level_scan fh1 (note_top_level info box) (box_offset box + box_size box) fsize
              = (info', fh')"
          by (simp add: top_level_scan.simps [of fh info p fsize])
        with 1(1) [OF \<open>p + 8 \<le> fsize\<close> rd [symmetric] _ _] Inr False fb
        show ?thesis by auto
      qed
    qed
  qed
qed

lemma top_level_scan_flags:
  "top_level_scan fh info p fsize = (info', fh') \<Longrightarrow>
   has_udta info' = has_udta info \<and> has_meta info' = has_meta info \<and>
   has_ilst info' = has_ilst info \<and> has_free_after_ilst info' = has_free_after_ilst info"
proof (induction fh info p fsize rule: top_level_scan.induct)
  case (1 fh info p fsize)
  show ?case
  proof (cases "p + 8 \<le> fsize")
    case False
    with 1(2) show ?thesis by (auto simp: top_level_scan.simps [of fh info p fsize])
  next
    case True
    obtain r1 fh1 where rd: "mp4_read_box_header (file_seek fh p) = (r1, fh1)"
      by (cases "mp4_read_box_header (file_seek fh p)")
    show ?thesis
    proof (cases r1)
      case (Inl rc)
      with 1(2) True rd show ?thesis
        by (auto simp: top_level_scan.simps [of fh info p fsize])
    next
      case (Inr box)
      show ?thesis
      proof (cases "box_size box < 8")
        case True
        with 1(2) \<open>p + 8 \<le> fsize\<close> rd Inr show ?thesis
          by (auto simp: top_level_scan.simps [of fh info p fsize])
      next
        case False
        with 1(2) \<open>p + 8 \<le> fsize\<close> rd Inr
        have "top_level_scan fh1 (note_top_level info box) (box_offset box + box_size box) fsize
              = (info', fh')"
          by (simp add: top_level_scan.simps [of fh info p fsize])
        with 1(1) [OF \<open>p + 8 \<le> fsize\<close> rd [symmetric] _ _] Inr False
        show ?thesis by (auto simp: note_top_level_def)
      qed
    qed
  qed
qed


lemma parse_meta_props:
  assumes pm: "parse_meta fh info meta = (info', fh')"
    and clean: "\<not> has_ilst info" "\<not> has_free_after_ilst info"
  shows "has_meta info' \<and> meta_offset info' = box_offset meta \<and> meta_size info' = box_size meta
       \<and> has_udta info' = has_udta info \<and> udta_offset info' = udta_offset info
       \<and> udta_size info' = udta_size info
       \<and> (has_ilst info' \<longrightarrow>
            box_located (fbytes fh) MP4_BOX_ILST (ilst_offset info') (ilst_size info'))
       \<and> (has_free_after_ilst info' \<longrightarrow>
            has_ilst info' \<and>
            free_after_ilst_offset info' = ilst_offset info' + ilst_size info' \<and>
            (box_located (fbytes fh) MP4_BOX_FREE (free_after_ilst_offset info')
               (free_after_ilst_size info') \<or>
             box_located (fbytes fh) MP4_BOX_SKIP (free_after_ilst_offset info')
               (free_after_ilst_size info')))"
proof -
  let ?off = "data_offset meta + 4"
  let ?sz = "if data_size meta - 4 < 0 then 0 else data_size meta - 4"
  obtain rh fh1 where hd: "find_child_box fh ?off ?sz MP4_BOX_HDLR = (rh, fh1)"
    by (cases "find_child_box fh ?off ?sz MP4_BOX_HDLR")
  obtain ri fh2 where il: "find_child_box fh1 ?off ?sz MP4_BOX_ILST = (ri, fh2)"
    by (cases "find_child_box fh1 ?off ?sz MP4_BOX_ILST")
  have fb1: "fbytes fh1 = fbytes fh" using find_child_box_fbytes [OF hd] .
  show ?thesis
  proof (cases ri)
    case (Inl rc)
    with pm hd il clean show ?thesis
      by (auto simp: parse_meta_def Let_def)
  next
    case (Inr ilst)
    from find_child_box_props [OF il [unfolded Inr]] fb1
    have fb2: "fbytes fh2 = fbytes fh"
      and loc: "box_located (fbytes fh) MP4_BOX_ILST (box_offset ilst) (box_size ilst)"
      by auto
    obtain rf fh3 where fr: "find_free_after fh2 (box_offset ilst + box_size ilst)
                               (box_offset meta + box_size meta) = (rf, fh3)"
      by (cases "find_free_after fh2 (box_offset ilst + box_size ilst)
                               (box_offset meta + box_size meta)")
    show ?thesis
    proof (cases rf)
      case (Inl rc)
      with pm hd il Inr fr loc show ?thesis
        by (auto simp: parse_meta_def Let_def)
    next
      case (Inr fo)
      obtain foff fsz where fo: "fo = (foff, fsz)" by (cases fo)
      from find_free_after_props [OF fr] Inr fo fb2
      have "foff = box_offset ilst + box_size ilst"
        and "box_located (fbytes fh) MP4_BOX_FREE foff fsz \<or>
             box_located (fbytes fh) MP4_BOX_SKIP foff fsz"
        by auto
      with pm hd il \<open>ri = Inr ilst\<close> fr Inr fo loc show ?thesis
        by (auto simp: parse_meta_def Let_def)
    qed
  qed
qed

section \<open>Evaluation of the writer\<close>

lemmas inplace_eval =
  try_inplace_def file_write_def write_fault_at_def put_bytes_def mp4_write_free_box_def
  write_zeros.simps file_sync_def mp4_write_box_header_def buffer_append_be32_def
  be32_bytes_def structure_eval

section \<open>Facts about the result codes of the writer\<close>

lemma file_write_not_no_space: "file_write fh bs = (rc, fh') \<Longrightarrow> rc \<noteq> MP4TAG_ERR_NO_SPACE"
  by (auto simp: file_write_def split: if_splits option.splits)

lemma copy_bytes_not_no_space:
  "copy_bytes src tmp n = (rc, src', tmp') \<Longrightarrow> rc \<noteq> MP4TAG_ERR_NO_SPACE"
proof (induction src tmp n arbitrary: rc src' tmp' rule: copy_bytes.induct)
  case (1 src tmp bytes_left)
  show ?case
  proof (cases "bytes_left > 0")
    case False
    with 1(2) show ?thesis by (simp add: copy_bytes.simps [of src tmp bytes_left])
  next
    case True
    obtain r src1 where rd:
      "file_read_partial src (if bytes_left < 65536 then nat bytes_left else 65536) = (r, src1)"
      by (cases "file_read_partial src (if bytes_left < 65536 then nat bytes_left else 65536)")
    show ?thesis
    proof (cases r)
      case None
      with 1(2) True rd show ?thesis by (simp add: copy_bytes.simps [of src tmp bytes_left])
    next
      case (Some bs)
      show ?thesis
      proof (cases "length bs = 0")
        case True
        with 1(2) \<open>bytes_left > 0\<close> rd Some show ?thesis
          by (simp add: copy_bytes.simps [of src tmp bytes_left])
      next
        case False
        obtain rc1 tmp1 where w: "file_write tmp bs = (rc1, tmp1)"
          by (cases "file_write tmp bs")
        show ?thesis
        proof (cases "rc1 = MP4TAG_OK")
          case True
          with 1(2) \<open>bytes_left > 0\<close> rd Some False w
          have "copy_bytes src1 tmp1 (bytes_left - int (length bs)) = (rc, src', tmp')"
            by (simp add: copy_bytes.simps [of src tmp bytes_left])
          with 1(1) [OF \<open>bytes_left > 0\<close> rd [symmetric] Some _ w [symmetric]] False True
          show ?thesis by simp
        next
          case nok: False
          with 1(2) \<open>bytes_left > 0\<close> rd Some False w have "rc = rc1"
            by (simp add: copy_bytes.simps [of src tmp bytes_left])
          with file_write_not_no_space [OF w] show ?thesis by simp
        qed
      qed
    qed
  qed
qed


lemma copy_children_not_no_space:
  "copy_children src tmp p e = (rc, src', tmp') \<Longrightarrow> rc \<noteq> MP4TAG_ERR_NO_SPACE"
proof (induction src tmp p e arbitrary: rc src' tmp' rule: copy_children.induct)
  case (1 src tmp p e)
  note run = 1(3) [unfolded copy_children.simps [of src tmp p e]]
  show ?case
  proof (cases "p + 8 \<le> e")
    case False
    with run show ?thesis by simp
  next
    case True
    obtain r src1 where rd: "mp4_read_box_header (file_seek src p) = (r, src1)"
      by (cases "mp4_read_box_header (file_seek src p)")
    show ?thesis
    proof (cases r)
      case (Inl a)
      with run True rd show ?thesis by simp
    next
      case (Inr child)
      show ?thesis
      proof (cases "box_size child < 8")
        case True
        with run \<open>p + 8 \<le> e\<close> rd Inr show ?thesis by simp
      next
        case big: False
        show ?thesis
        proof (cases "box_type child \<noteq> MP4_BOX_UDTA")
          case False
          with run \<open>p + 8 \<le> e\<close> rd Inr big
          have "copy_children src1 tmp (box_offset child + box_size child) e = (rc, src', tmp')"
            by simp
          with 1(2) [OF \<open>p + 8 \<le> e\<close> rd [symmetric] Inr big] False
          show ?thesis by simp
        next
          case True
          obtain rc1 src2 tmp1 where
            cp: "copy_bytes (file_seek src1 (box_offset child)) tmp (box_size child)
                   = (rc1, src2, tmp1)"
            by (cases "copy_bytes (file_seek src1 (box_offset child)) tmp (box_size child)")
          show ?thesis
          proof (cases "rc1 = MP4TAG_OK")
            case False
            with run \<open>p + 8 \<le> e\<close> rd Inr big True cp have "rc = rc1" by simp
            with copy_bytes_not_no_space [OF cp] show ?thesis by simp
          next
            case ok: True
            with run \<open>p + 8 \<le> e\<close> rd Inr big True cp
            have "copy_children src2 tmp1 (box_offset child + box_size child) e
                    = (rc, src', tmp')"
              by simp
            with 1(1) [OF \<open>p + 8 \<le> e\<close> rd [symmetric] Inr big True cp [symmetric]] ok
            show ?thesis by simp
          qed
        qed
      qed
    qed
  qed
qed


lemma rewrite_boxes_not_no_space:
  "rewrite_boxes src tmp udta_buf p src_size = (rc, src', tmp') \<Longrightarrow> rc \<noteq> MP4TAG_ERR_NO_SPACE"
  apply (induction src tmp udta_buf p src_size arbitrary: rc src' tmp' rule: rewrite_boxes.induct)
  subgoal for src tmp udta_buf p src_size rc src' tmp'
    apply (subst (asm) (3) rewrite_boxes.simps)
    apply (simp add: Let_def split: if_splits prod.splits sum.splits)
         apply (auto dest: file_write_not_no_space copy_bytes_not_no_space copy_children_not_no_space)
    done
  done


lemma rewrite_file_not_no_space:
  "rewrite_file env ctx fh udta_buf = (rc, ctx') \<Longrightarrow> rc \<noteq> MP4TAG_ERR_NO_SPACE"
  by (auto simp: rewrite_file_def split: if_splits prod.splits
           dest: rewrite_boxes_not_no_space)

lemma fst_rewrite_file_not_no_space:
  "fst (rewrite_file env ctx fh udta_buf) \<noteq> MP4TAG_ERR_NO_SPACE"
  using rewrite_file_not_no_space [of env ctx fh udta_buf]
  by (cases "rewrite_file env ctx fh udta_buf") simp

lemma serialize_tag_item_OK: "fst (serialize_tag_item st buf) = MP4TAG_OK"
  by (simp add: serialize_tag_item_def Let_def split: option.splits prod.splits)

lemma serialize_simple_tags_OK: "fst (serialize_simple_tags sts buf) = MP4TAG_OK"
proof (induction sts arbitrary: buf)
  case Nil
  show ?case by simp
next
  case (Cons st sts)
  obtain rc buf' where s: "serialize_tag_item st buf = (rc, buf')"
    by (cases "serialize_tag_item st buf")
  with serialize_tag_item_OK [of st buf] have "rc = MP4TAG_OK" by simp
  with s Cons show ?case by simp
qed

lemma serialize_tags_OK: "fst (serialize_tags ts buf) = MP4TAG_OK"
proof (induction ts arbitrary: buf)
  case Nil
  show ?case by simp
next
  case (Cons t ts)
  obtain rc buf' where s: "serialize_simple_tags (simple_tags t) buf = (rc, buf')"
    by (cases "serialize_simple_tags (simple_tags t) buf")
  with serialize_simple_tags_OK [of "simple_tags t" buf] have "rc = MP4TAG_OK" by simp
  with s Cons show ?case by simp
qed

lemma serialize_ilst_not_no_space:
  "mp4_tags_serialize_ilst coll buf = (rc, out) \<Longrightarrow> rc \<noteq> MP4TAG_ERR_NO_SPACE"
  using serialize_tags_OK [of "tags (the coll)" buf]
  by (auto simp: mp4_tags_serialize_ilst_def split: option.splits)

lemma build_udta_not_no_space:
  "mp4_tags_build_udta coll buf = (rc, out) \<Longrightarrow> rc \<noteq> MP4TAG_ERR_NO_SPACE"
  by (auto simp: mp4_tags_build_udta_def Let_def split: option.splits prod.splits if_splits
           dest: serialize_ilst_not_no_space)

text \<open>Evaluation of the writer on the sample file with the long title.\<close>

lemma long_title_item_bytes:
  "long_title_item =
   [0, 0, 0, 83, 169, 110, 97, 109, 0, 0, 0, 75, 100, 97, 116, 97, 0, 0, 0,
   1, 0, 0, 0, 0, 65, 32, 116, 105, 116, 108, 101, 32, 116, 104, 97, 116,
   32, 105, 115, 32, 116, 111, 111, 32, 108, 111, 110, 103, 32, 102, 111,
   114, 32, 116, 104, 101, 32, 115, 112, 97, 99, 101, 32, 111, 102, 32, 116,
   104, 101, 32, 111, 108, 100, 32, 105, 116, 101, 109, 32, 108, 105, 115,
   116]"
  by (simp add: long_title_item_def box_bytes_def mp4_write_box_header_def
                buffer_append_be32_def be32_bytes_def fourcc_eval MP4_DATA_UTF8_def)

lemma serialize_long_title:
  "mp4_tags_serialize_ilst (Some (album_collection [long_title])) [] = (MP4TAG_OK, long_title_item)"
  by (simp add: long_title_item_bytes mp4_tags_serialize_ilst_def album_collection_def
                long_title_def encode_eval)

lemma inplace_long_title:
  "try_inplace sample_info (sample_handle True []) long_title_item
     = (MP4TAG_ERR_NO_SPACE, sample_info, sample_handle True [])"
  by (simp add: try_inplace_def long_title_item_bytes sample_info_def Let_def)


lemma build_udta_long_title:
  "mp4_tags_build_udta (Some (album_collection [long_title])) [] = (MP4TAG_OK, long_title_udta)"
  by (simp add: mp4_tags_build_udta_def serialize_long_title long_title_udta_def
                long_title_item_bytes box_bytes_def hdlr_data_def Let_def
                mp4_write_box_header_def buffer_append_be32_def be32_bytes_def fourcc_eval)

lemma long_title_udta_bytes:
  "long_title_udta = [0, 0, 0, 144, 117, 100, 116, 97, 0, 0, 0, 136, 109, 101,
          116, 97, 0, 0, 0, 0, 0, 0, 0, 33, 104, 100, 108, 114, 0, 0, 0, 0,
          0, 0, 0, 0, 109, 100, 105, 114, 97, 112, 112, 108, 0, 0, 0, 0, 0,
          0, 0, 0, 0, 0, 0, 0, 91, 105, 108, 115, 116, 0, 0, 0, 83, 169,
          110, 97, 109, 0, 0, 0, 75, 100, 97, 116, 97, 0, 0, 0, 1, 0, 0, 0,
          0, 65, 32, 116, 105, 116, 108, 101, 32, 116, 104, 97, 116, 32,
          105, 115, 32, 116, 111, 111, 32, 108, 111, 110, 103, 32, 102, 111,
          114, 32, 116, 104, 101, 32, 115, 112, 97, 99, 101, 32, 111, 102,
          32, 116, 104, 101, 32, 111, 108, 100, 32, 105, 116, 101, 109, 32,
          108, 105, 115, 116]"
  by (simp add: long_title_udta_def
                long_title_item_bytes box_bytes_def hdlr_data_def Let_def
                mp4_write_box_header_def buffer_append_be32_def be32_bytes_def fourcc_eval)

lemma rewrite_long_title:
  "fst (rewrite_file plain_env (sample_ctx True []) (sample_handle True []) long_title_udta)
     = MP4TAG_OK"
  by (simp add: long_title_udta_bytes rewrite_file_def plain_env_def sample_ctx_def
        rewrite_boxes.simps non_udta_total.simps copy_children.simps copy_bytes.simps
        file_read_partial_def inplace_eval split: prod.splits)

section \<open>Reading a box header\<close>

text \<open>
  Claim C3, counterexample.  The eight bytes \<open>00 00 00 04 'f' 'r' 'e' 'e'\<close> declare a
  box of total size 4, smaller than its 8-byte header.  \<open>mp4_read_box_header\<close> does not
  fail with \<open>Corrupt\<close>: it succeeds and reports size 4 and data size -4.
\<close>

theorem read_box_header_small_size_counterexample:
  "fst (mp4_read_box_header
          \<lparr>fbytes = [0, 0, 0, 4, 0x66, 0x72, 0x65, 0x65], fh_writable = False, pos = 0,
           faults = []\<rparr>)
     = Inr \<lparr>box_type = MP4_BOX_FREE, box_offset = 0, box_size = 4, data_offset = 8,
            data_size = - 4, header_size = 8\<rparr>
   \<and> fst (mp4_read_box_header
          \<lparr>fbytes = [0, 0, 0, 4, 0x66, 0x72, 0x65, 0x65], fh_writable = False, pos = 0,
           faults = []\<rparr>) \<noteq> Inl MP4TAG_ERR_CORRUPT"
  by (simp add: mp4_read_box_header_def io_defs mk_box_def wrap_int64_def fourcc_eval)

lemma be64_min: "sint (be64 [0x80, 0, 0, 0, 0, 0, 0, 0]) = - 9223372036854775808"
  by (simp add: be64_def)

text \<open>
  Claim C3, amended.  At a non-negative position and with no failing system call,
  \<open>mp4_read_box_header\<close> fails with \<open>Truncated\<close> when fewer than 8 bytes are left, or
  when the size field is 1 and fewer than 16 bytes are left.  Otherwise it succeeds with
  the resolved size (the 64-bit field read as a signed number, the distance to the end of
  file for size field 0, or the size field itself), whatever that size is: it never fails
  with \<open>Corrupt\<close>, and a size below the header size is returned as it is.  In every
  returned box the offset is the position, \<open>data_offset\<close> is the offset plus the header
  size, and \<open>data_size\<close> is the size minus the header size reduced to the range of
  \<open>int64_t\<close>.
\<close>

theorem read_box_header_cases:
  assumes "0 \<le> pos fh" and "faults fh = []"
  shows "(file_size fh < pos fh + 8 \<longrightarrow>
            fst (mp4_read_box_header fh) = Inl MP4TAG_ERR_TRUNCATED)
       \<and> (pos fh + 8 \<le> file_size fh \<and> file_size fh < pos fh + 16 \<and>
            be32 (take 4 (drop (nat (pos fh)) (fbytes fh))) = 1 \<longrightarrow>
            fst (mp4_read_box_header fh) = Inl MP4TAG_ERR_TRUNCATED)
       \<and> (pos fh + 16 \<le> file_size fh \<and>
            be32 (take 4 (drop (nat (pos fh)) (fbytes fh))) = 1 \<longrightarrow>
            fst (mp4_read_box_header fh) =
              Inr (mk_box (be32 (take 4 (drop (nat (pos fh) + 4) (fbytes fh)))) (pos fh)
                     (sint (be64 (take 8 (drop (nat (pos fh) + 8) (fbytes fh))))) 16))
       \<and> (pos fh + 8 \<le> file_size fh \<and>
            be32 (take 4 (drop (nat (pos fh)) (fbytes fh))) = 0 \<longrightarrow>
            fst (mp4_read_box_header fh) =
              Inr (mk_box (be32 (take 4 (drop (nat (pos fh) + 4) (fbytes fh)))) (pos fh)
                     (file_size fh - pos fh) 8))
       \<and> (pos fh + 8 \<le> file_size fh \<and>
            be32 (take 4 (drop (nat (pos fh)) (fbytes fh))) \<noteq> 0 \<and>
            be32 (take 4 (drop (nat (pos fh)) (fbytes fh))) \<noteq> 1 \<longrightarrow>
            fst (mp4_read_box_header fh) =
              Inr (mk_box (be32 (take 4 (drop (nat (pos fh) + 4) (fbytes fh)))) (pos fh)
                     (uint (be32 (take 4 (drop (nat (pos fh)) (fbytes fh))))) 8))
       \<and> fst (mp4_read_box_header fh) \<noteq> Inl MP4TAG_ERR_CORRUPT
       \<and> (\<forall>b. fst (mp4_read_box_header fh) = Inr b \<longrightarrow>
              box_offset b = pos fh \<and> data_offset b = pos fh + header_size b \<and>
              data_size b = wrap_int64 (box_size b - header_size b))"
  using assms
  apply (simp add: mp4_read_box_header_def io_defs Let_def split: prod.splits sum.splits)
  apply (auto simp: take_drop nat_add_distrib add.commute mk_box_def)
  done


theorem read_box_header_cases_witness:
  "fst (mp4_read_box_header \<lparr>fbytes = [0, 0, 0], fh_writable = False, pos = 0, faults = []\<rparr>)
     = Inl MP4TAG_ERR_TRUNCATED
   \<and> fst (mp4_read_box_header
        \<lparr>fbytes = [0, 0, 0, 1, 0x66, 0x72, 0x65, 0x65, 0, 0], fh_writable = False, pos = 0,
         faults = []\<rparr>) = Inl MP4TAG_ERR_TRUNCATED
   \<and> fst (mp4_read_box_header
        \<lparr>fbytes = [0, 0, 0, 1, 0x66, 0x72, 0x65, 0x65, 0, 0, 0, 0, 0, 0, 0, 9],
         fh_writable = False, pos = 0, faults = []\<rparr>)
     = Inr \<lparr>box_type = MP4_BOX_FREE, box_offset = 0, box_size = 9, data_offset = 16,
            data_size = - 7, header_size = 16\<rparr>
   \<and> fst (mp4_read_box_header
        \<lparr>fbytes = [0, 0, 0, 1, 0x66, 0x72, 0x65, 0x65, 0x80, 0, 0, 0, 0, 0, 0, 0],
         fh_writable = False, pos = 0, faults = []\<rparr>)
     = Inr \<lparr>box_type = MP4_BOX_FREE, box_offset = 0, box_size = - 9223372036854775808,
            data_offset = 16, data_size = 9223372036854775792, header_size = 16\<rparr>
   \<and> fst (mp4_read_box_header
        \<lparr>fbytes = [0, 0, 0, 0, 0x66, 0x72, 0x65, 0x65, 7], fh_writable = False, pos = 0,
         faults = []\<rparr>)
     = Inr \<lparr>box_type = MP4_BOX_FREE, box_offset = 0, box_size = 9, data_offset = 8,
            data_size = 1, header_size = 8\<rparr>
   \<and> fst (mp4_read_box_header
        \<lparr>fbytes = [0, 0, 0, 4, 0x66, 0x72, 0x65, 0x65], fh_writable = False, pos = 0,
         faults = []\<rparr>)
     = Inr \<lparr>box_type = MP4_BOX_FREE, box_offset = 0, box_size = 4, data_offset = 8,
            data_size = - 4, header_size = 8\<rparr>"
proof -
  let ?h = "\<lambda>bs. \<lparr>fbytes = bs, fh_writable = False, pos = 0, faults = []\<rparr>"
  have t: "be32 [0x66, 0x72, 0x65, 0x65] = MP4_BOX_FREE"
    by (simp add: fourcc_eval)
  have s1: "be32 [0, 0, 0, 1] = 1" and s0: "be32 [0, 0, 0, 0] = 0" and s4: "be32 [0, 0, 0, 4] = 4"
    by (simp_all add: be32_def)
  have e9: "sint (be64 [0, 0, 0, 0, 0, 0, 0, 9]) = 9"
    by (simp add: be64_def)
  have a: "fst (mp4_read_box_header (?h [0, 0, 0])) = Inl MP4TAG_ERR_TRUNCATED"
    using read_box_header_cases [of "?h [0, 0, 0]", THEN conjunct1]
    by (simp add: file_size_def)
  have b: "fst (mp4_read_box_header (?h [0, 0, 0, 1, 0x66, 0x72, 0x65, 0x65, 0, 0]))
             = Inl MP4TAG_ERR_TRUNCATED"
    using read_box_header_cases [of "?h [0, 0, 0, 1, 0x66, 0x72, 0x65, 0x65, 0, 0]",
                                 THEN conjunct2, THEN conjunct1]
    by (simp add: file_size_def s1)
  have c: "fst (mp4_read_box_header
                  (?h [0, 0, 0, 1, 0x66, 0x72, 0x65, 0x65, 0, 0, 0, 0, 0, 0, 0, 9]))
             = Inr (mk_box MP4_BOX_FREE 0 9 16)"
    using read_box_header_cases
            [of "?h [0, 0, 0, 1, 0x66, 0x72, 0x65, 0x65, 0, 0, 0, 0, 0, 0, 0, 9]",
             THEN conjunct2, THEN conjunct2, THEN conjunct1]
    by (simp add: file_size_def s1 t e9)
  have d: "fst (mp4_read_box_header
                  (?h [0, 0, 0, 1, 0x66, 0x72, 0x65, 0x65, 0x80, 0, 0, 0, 0, 0, 0, 0]))
             = Inr (mk_box MP4_BOX_FREE 0 (- 9223372036854775808) 16)"
    using read_box_header_cases
            [of "?h [0, 0, 0, 1, 0x66, 0x72, 0x65, 0x65, 0x80, 0, 0, 0, 0, 0, 0, 0]",
             THEN conjunct2, THEN conjunct2, THEN conjunct1]
    by (simp add: file_size_def s1 t be64_min)
  have e: "fst (mp4_read_box_header (?h [0, 0, 0, 0, 0x66, 0x72, 0x65, 0x65, 7]))
             = Inr (mk_box MP4_BOX_FREE 0 9 8)"
    using read_box_header_cases
            [of "?h [0, 0, 0, 0, 0x66, 0x72, 0x65, 0x65, 7]",
             THEN conjunct2, THEN conjunct2, THEN conjunct2, THEN conjunct1]
    by (simp add: file_size_def s0 t)
  have f: "fst (mp4_read_box_header (?h [0, 0, 0, 4, 0x66, 0x72, 0x65, 0x65]))
             = Inr (mk_box MP4_BOX_FREE 0 4 8)"
    using read_box_header_cases
            [of "?h [0, 0, 0, 4, 0x66, 0x72, 0x65, 0x65]",
             THEN conjunct2, THEN conjunct2, THEN conjunct2, THEN conjunct2, THEN conjunct1]
    by (simp add: file_size_def s4 t)
  from a b c d e f show ?thesis
    by (simp add: mk_box_def wrap_int64_def)
qed

section \<open>Track and disc number pairs\<close>

lemma pair_bytes:
  "N < 65536 \<Longrightarrow> (ucast (drop_bit 8 (of_nat N :: u32)) :: byte) = of_nat (N div 256)"
  "(ucast (of_nat N :: u32) :: byte) = of_nat N"
proof -
  have m: "N mod 4294967296 mod 256 = N mod 256"
    by (rule mod_mod_cancel) simp
  show "(ucast (of_nat N :: u32) :: byte) = of_nat N"
    by (rule word_unat_eq_iff [THEN iffD2])
       (simp add: unsigned_ucast_eq unat_of_nat take_bit_eq_mod m)
  assume "N < 65536"
  then show "(ucast (drop_bit 8 (of_nat N :: u32)) :: byte) = of_nat (N div 256)"
    by (intro word_unat_eq_iff [THEN iffD2])
       (simp add: unsigned_ucast_eq unat_of_nat take_bit_eq_mod unat_drop_bit_eq
                  drop_bit_eq_div unat_div)
qed

lemma trkn_disk_distinct:
  "MP4_TAG_TRKN \<noteq> 0" "MP4_TAG_DISK \<noteq> 0" 
  by (simp_all add: fourcc_eval)

text \<open>
  Claim C4.  Let \<open>N\<close> and \<open>T\<close> be below \<open>2^16\<close> and let the tag's name resolve to
  \<open>trkn\<close> or \<open>disk\<close>, its value being the decimal string \<open>"N/T"\<close>.  The encoder
  emits the 32-byte item whose payload is \<open>00 00 NN NN TT TT 00 00\<close>; on a file holding
  these bytes the box header read at offset 0 is that item, and decoding it yields the
  string \<open>"N/T"\<close> when \<open>T > 0\<close> and \<open>"N"\<close> when \<open>T = 0\<close>.
\<close>

theorem track_pair_roundtrip:
  assumes "N < 65536" and "T < 65536"
    and "fourcc = MP4_TAG_TRKN \<or> fourcc = MP4_TAG_DISK"
    and "mp4_tag_name_to_fourcc (st_name st) = fourcc"
    and "st_value st = Some (dec_str N @ ''/'' @ dec_str T)"
  shows "serialize_tag_item st [] =
           (MP4TAG_OK,
            be32_bytes 32 @ be32_bytes fourcc @ be32_bytes 24 @ be32_bytes MP4_BOX_DATA
              @ be32_bytes MP4_DATA_IMPLICIT @ be32_bytes 0
              @ [0, 0, of_nat (N div 256), of_nat N, of_nat (T div 256), of_nat T, 0, 0])
       \<and> fst (mp4_read_box_header
                \<lparr>fbytes = snd (serialize_tag_item st []), fh_writable = w, pos = 0,
                 faults = []\<rparr>) = Inr (mk_box fourcc 0 32 8)
       \<and> fst (parse_ilst_item
                \<lparr>fbytes = snd (serialize_tag_item st []), fh_writable = w, pos = 8,
                 faults = []\<rparr> (mk_box fourcc 0 32 8))
          = Inr (SimpleTag (Some (item_name fourcc))
                   (Some (if T > 0 then dec_str N @ ''/'' @ dec_str T else dec_str N))
                   None None True [])"
proof -
  let ?pair = "[0, 0, ucast (drop_bit 8 (of_nat N :: u32)), ucast (of_nat N :: u32),
                ucast (drop_bit 8 (of_nat T :: u32)), ucast (of_nat T :: u32), 0, 0] :: byte list"
  let ?bytes = "be32_bytes 32 @ be32_bytes fourcc @ be32_bytes 24 @ be32_bytes MP4_BOX_DATA
              @ be32_bytes MP4_DATA_IMPLICIT @ be32_bytes 0 @ ?pair"
  have nz: "fourcc \<noteq> 0" using assms(3) by (auto simp: trkn_disk_distinct)
  have enc: "serialize_tag_item st [] = (MP4TAG_OK, ?bytes)"
    using assms(3,4,5) nz
    by (auto simp: serialize_tag_item_def item_content_def Let_def sscanf_pair [simplified]
                  mp4_write_box_header_def buffer_append_be32_def)
  have hdr: "fst (mp4_read_box_header
                \<lparr>fbytes = ?bytes, fh_writable = w, pos = 0, faults = []\<rparr>)
             = Inr (mk_box fourcc 0 32 8)"
    by (simp add: mp4_read_box_header_def io_defs be32_be32_bytes Let_def)
  have tpos: "0 < (ucast (of_nat T :: u32) :: 16 word) \<longleftrightarrow> 0 < T"
    using assms(2) unat_ucast_of_nat16 [of T] by (simp add: word_less_nat_alt)
  have ia: "is_int_atom fourcc" using assms(3) by (auto simp: is_int_atom_def)
  have val: "int_atom_value fourcc 8 ?pair
             = (if T > 0 then dec_str N @ ''/'' @ dec_str T else dec_str N)"
    using assms(1,2,3) tpos
    by (auto simp: int_atom_value_def be16_split unat_ucast_of_nat16)
  have "fst (parse_ilst_item
                \<lparr>fbytes = ?bytes, fh_writable = w, pos = 8, faults = []\<rparr> (mk_box fourcc 0 32 8))
          = Inr (SimpleTag (Some (item_name fourcc)) (Some (int_atom_value fourcc 8 ?pair))
                   None None True [])"
    unfolding parse_ilst_item_def mk_box_def
    apply (subst parse_item_loop.simps)
    apply (simp add: mp4_read_box_header_def io_defs be32_be32_bytes Let_def mk_box_def
                     wrap_int64_def parse_data_box_def ia)
    done
  then have dec: "fst (parse_ilst_item
                \<lparr>fbytes = ?bytes, fh_writable = w, pos = 8, faults = []\<rparr> (mk_box fourcc 0 32 8))
          = Inr (SimpleTag (Some (item_name fourcc))
                   (Some (if T > 0 then dec_str N @ ''/'' @ dec_str T else dec_str N))
                   None None True [])"
    unfolding val .
  from enc hdr dec assms(1,2) show ?thesis
    by (simp add: pair_bytes)
qed

theorem track_pair_roundtrip_witness:
  "serialize_tag_item (SimpleTag (Some ''TRACK_NUMBER'') (Some ''3/12'') None None False []) []
     = (MP4TAG_OK,
        [0, 0, 0, 32, 0x74, 0x72, 0x6B, 0x6E, 0, 0, 0, 24, 0x64, 0x61, 0x74, 0x61,
         0, 0, 0, 0, 0, 0, 0, 0, 0, 0, 0, 3, 0, 12, 0, 0])
   \<and> fst (parse_ilst_item
          \<lparr>fbytes = snd (serialize_tag_item
                            (SimpleTag (Some ''TRACK_NUMBER'') (Some ''3/12'') None None False [])
                            []),
           fh_writable = False, pos = 8, faults = []\<rparr>
          (mk_box MP4_TAG_TRKN 0 32 8))
     = Inr (SimpleTag (Some ''TRACK_NUMBER'') (Some ''3/12'') None None True [])
   \<and> fst (parse_ilst_item
          \<lparr>fbytes = snd (serialize_tag_item
                            (SimpleTag (Some ''disk'') (Some ''5/0'') None None False []) []),
           fh_writable = False, pos = 8, faults = []\<rparr>
          (mk_box MP4_TAG_DISK 0 32 8))
     = Inr (SimpleTag (Some ''DISC_NUMBER'') (Some ''5'') None None True [])"
proof -
  let ?st = "SimpleTag (Some ''TRACK_NUMBER'') (Some ''3/12'') None None False []"
  let ?sd = "SimpleTag (Some ''disk'') (Some ''5/0'') None None False []"
  have n: "(3::nat) < 65536" "(12::nat) < 65536" "(5::nat) < 65536" "(0::nat) < 65536"
    by simp_all
  have f: "MP4_TAG_TRKN = MP4_TAG_TRKN \<or> MP4_TAG_TRKN = MP4_TAG_DISK"
          "MP4_TAG_DISK = MP4_TAG_TRKN \<or> MP4_TAG_DISK = MP4_TAG_DISK"
    by simp_all
  have nm: "mp4_tag_name_to_fourcc (st_name ?st) = MP4_TAG_TRKN"
           "mp4_tag_name_to_fourcc (st_name ?sd) = MP4_TAG_DISK"
    by (simp_all add: name_eval)
  have v: "st_value ?st = Some (dec_str 3 @ ''/'' @ dec_str 12)"
          "st_value ?sd = Some (dec_str 5 @ ''/'' @ dec_str 0)"
    by (simp_all add: dec_str.simps digit_char_def)
  have names: "item_name MP4_TAG_TRKN = ''TRACK_NUMBER''" "item_name MP4_TAG_DISK = ''DISC_NUMBER''"
    by (simp_all add: name_eval)
  have digits: "dec_str 3 @ ''/'' @ dec_str 12 = ''3/12''" "dec_str 5 = ''5''"
    by (simp_all add: dec_str.simps digit_char_def)
  have bytes:
    "be32_bytes 32 @ be32_bytes MP4_TAG_TRKN @ be32_bytes 24 @ be32_bytes MP4_BOX_DATA
       @ be32_bytes MP4_DATA_IMPLICIT @ be32_bytes 0
       @ [0, 0, of_nat (3 div 256), of_nat 3, of_nat (12 div 256), of_nat 12, 0, 0]
     = [0, 0, 0, 32, 0x74, 0x72, 0x6B, 0x6E, 0, 0, 0, 24, 0x64, 0x61, 0x74, 0x61,
         0, 0, 0, 0, 0, 0, 0, 0, 0, 0, 0, 3, 0, 12, 0, 0]"
    by (simp add: be32_bytes_def fourcc_eval data_type_defs)
  note t1 = track_pair_roundtrip [OF n(1) n(2) f(1) nm(1) v(1), of False]
  note t2 = track_pair_roundtrip [OF n(3) n(4) f(2) nm(2) v(2), of False]
  have c1: "serialize_tag_item ?st []
     = (MP4TAG_OK,
        [0, 0, 0, 32, 0x74, 0x72, 0x6B, 0x6E, 0, 0, 0, 24, 0x64, 0x61, 0x74, 0x61,
         0, 0, 0, 0, 0, 0, 0, 0, 0, 0, 0, 3, 0, 12, 0, 0])"
    using t1 [THEN conjunct1] unfolding bytes .
  have c2: "fst (parse_ilst_item
          \<lparr>fbytes = snd (serialize_tag_item ?st []), fh_writable = False, pos = 8,
           faults = []\<rparr> (mk_box MP4_TAG_TRKN 0 32 8))
     = Inr (SimpleTag (Some ''TRACK_NUMBER'') (Some ''3/12'') None None True [])"
    using t1 [THEN conjunct2, THEN conjunct2] unfolding names digits by simp
  have c3: "fst (parse_ilst_item
          \<lparr>fbytes = snd (serialize_tag_item ?sd []), fh_writable = False, pos = 8,
           faults = []\<rparr> (mk_box MP4_TAG_DISK 0 32 8))
     = Inr (SimpleTag (Some ''DISC_NUMBER'') (Some ''5'') None None True [])"
    using t2 [THEN conjunct2, THEN conjunct2] unfolding names digits by simp
  from c1 c2 c3 show ?thesis by (intro conjI)
qed

section \<open>Brand validation\<close>

text \<open>
  Claim C5, the failing input.  A 16-byte file that is one \<open>ftyp\<close> box with major brand
  \<open>NDAS\<close> and minor version 0 is rejected with \<open>NotMp4\<close>, although \<open>NDAS\<close> is in the
  list of the claim and in the source's own comment; the same file with major brand
  \<open>MSNV\<close> is accepted.
\<close>

theorem validate_ftyp_rejects_NDAS:
  "fst (mp4_validate_ftyp
          \<lparr>fbytes = [0, 0, 0, 16, 0x66, 0x74, 0x79, 0x70, 0x4E, 0x44, 0x41, 0x53, 0, 0, 0, 0],
           fh_writable = False, pos = 0, faults = []\<rparr>) = MP4TAG_ERR_NOT_MP4
   \<and> be32 [0x4E, 0x44, 0x41, 0x53] = fourcc_of ''NDAS''
   \<and> fst (mp4_validate_ftyp
          \<lparr>fbytes = [0, 0, 0, 16, 0x66, 0x74, 0x79, 0x70, 0x4D, 0x53, 0x4E, 0x56, 0, 0, 0, 0],
           fh_writable = False, pos = 0, faults = []\<rparr>) = MP4TAG_OK
   \<and> be32 [0x4D, 0x53, 0x4E, 0x56] = fourcc_of ''MSNV''"
  by (simp add: mp4_validate_ftyp_def mp4_read_box_header_def io_defs Let_def mk_box_def
                wrap_int64_def
                fourcc_eval major_brands_def)

section \<open>The file map\<close>

text \<open>
  Claim C6.  When \<open>mp4_parse_structure\<close> accepts a file, the flags of the file map are
  nested (\<open>has_ilst\<close> implies \<open>has_meta\<close> and \<open>has_udta\<close>), and the offset and size
  recorded under each set flag are those of a box of the respective type located at that
  offset of the file; a recorded trailing free box starts where the \<open>ilst\<close> box ends.
\<close>

theorem parse_structure_flags:
  assumes "mp4_parse_structure fh = (MP4TAG_OK, info, fh')"
  shows "(has_ilst info \<longrightarrow> has_meta info \<and> has_udta info)
       \<and> (has_meta info \<longrightarrow> has_udta info)
       \<and> (has_udta info \<longrightarrow>
            box_located (fbytes fh) MP4_BOX_UDTA (udta_offset info) (udta_size info))
       \<and> (has_meta info \<longrightarrow>
            box_located (fbytes fh) MP4_BOX_META (meta_offset info) (meta_size info))
       \<and> (has_ilst info \<longrightarrow>
            box_located (fbytes fh) MP4_BOX_ILST (ilst_offset info) (ilst_size info))
       \<and> (has_free_after_ilst info \<longrightarrow>
            has_ilst info \<and>
            free_after_ilst_offset info = ilst_offset info + ilst_size info \<and>
            (box_located (fbytes fh) MP4_BOX_FREE (free_after_ilst_offset info)
               (free_after_ilst_size info) \<or>
             box_located (fbytes fh) MP4_BOX_SKIP (free_after_ilst_offset info)
               (free_after_ilst_size info)))"
proof -
  from assms have big: "\<not> file_size fh < 8"
    by (auto simp: mp4_parse_structure_def split: if_splits)
  obtain i0 fh1 where ts: "top_level_scan fh info_init 0 (file_size fh) = (i0, fh1)"
    by (cases "top_level_scan fh info_init 0 (file_size fh)")
  have fb1: "fbytes fh1 = fbytes fh" using top_level_scan_fbytes [OF ts] .
  have fl0: "\<not> has_udta i0" "\<not> has_meta i0" "\<not> has_ilst i0" "\<not> has_free_after_ilst i0"
    using top_level_scan_flags [OF ts] by (simp_all add: info_init_def)
  from assms big ts have mv: "\<not> moov_offset i0 < 0"
    by (auto simp: mp4_parse_structure_def split: if_splits)
  obtain rm fh2 where rd: "mp4_read_box_header (file_seek fh1 (moov_offset i0)) = (rm, fh2)"
    by (cases "mp4_read_box_header (file_seek fh1 (moov_offset i0))")
  have fb2: "fbytes fh2 = fbytes fh"
    using read_box_header_fbytes [OF rd] fb1 by (simp add: file_seek_def)
  from assms big ts mv rd obtain moov where moov: "rm = Inr moov"
    by (cases rm) (auto simp: mp4_parse_structure_def read_box_header_not_Inl_OK)
  obtain ru fh3 where ud: "find_child_box fh2 (data_offset moov) (data_size moov) MP4_BOX_UDTA
                            = (ru, fh3)"
    by (cases "find_child_box fh2 (data_offset moov) (data_size moov) MP4_BOX_UDTA")
  show ?thesis
  proof (cases ru)
    case (Inl rc)
    with assms big ts mv rd moov ud have "info = i0\<lparr>valid := True\<rparr>"
      by (auto simp: mp4_parse_structure_def)
    with fl0 show ?thesis by simp
  next
    case (Inr udta)
    from find_child_box_props [OF ud [unfolded Inr]] fb2
    have fb3: "fbytes fh3 = fbytes fh"
      and locu: "box_located (fbytes fh) MP4_BOX_UDTA (box_offset udta) (box_size udta)"
      by auto
    let ?i1 = "i0\<lparr>has_udta := True, udta_offset := box_offset udta, udta_size := box_size udta\<rparr>"
    obtain rme fh4 where me: "find_child_box fh3 (data_offset udta) (data_size udta) MP4_BOX_META
                            = (rme, fh4)"
      by (cases "find_child_box fh3 (data_offset udta) (data_size udta) MP4_BOX_META")
    show ?thesis
    proof (cases rme)
      case (Inl rc)
      with assms big ts mv rd moov ud Inr me have "info = ?i1\<lparr>valid := True\<rparr>"
        by (auto simp: mp4_parse_structure_def Let_def)
      with fl0 locu show ?thesis by simp
    next
      case (Inr meta)
      from find_child_box_props [OF me [unfolded Inr]] fb3
      have fb4: "fbytes fh4 = fbytes fh"
        and locm: "box_located (fbytes fh) MP4_BOX_META (box_offset meta) (box_size meta)"
        by auto
      obtain i2 fh5 where pm: "parse_meta fh4 ?i1 meta = (i2, fh5)"
        by (cases "parse_meta fh4 ?i1 meta")
      from assms big ts mv rd moov ud \<open>ru = Inr udta\<close> me Inr pm
      have inf: "info = i2\<lparr>valid := True\<rparr>"
        by (auto simp: mp4_parse_structure_def Let_def)
      from parse_meta_props [OF pm] fl0 fb4 locu locm inf show ?thesis
        by auto
    qed
  qed
qed

lemma parse_sample:
  "mp4_parse_structure (sample_handle w []) = (MP4TAG_OK, sample_info, (sample_handle w [])\<lparr>pos := 167\<rparr>)"
  by (simp add: structure_eval)

theorem parse_structure_flags_witness:
  "mp4_parse_structure (sample_handle False [])
     = (MP4TAG_OK, sample_info, (sample_handle False [])\<lparr>pos := 167\<rparr>)
   \<and> has_ilst sample_info \<and> has_meta sample_info \<and> has_udta sample_info
   \<and> box_located sample_file MP4_BOX_UDTA 36 139
   \<and> box_located sample_file MP4_BOX_META 44 131
   \<and> box_located sample_file MP4_BOX_ILST 89 70
   \<and> (box_located sample_file MP4_BOX_FREE 159 16 \<or> box_located sample_file MP4_BOX_SKIP 159 16)"
  using parse_structure_flags [OF parse_sample [of False]] parse_sample [of False]
  by (simp add: sample_info_def sample_handle_def)

section \<open>Cover art\<close>

text \<open>
  Claim C7, counterexample.  A \<open>COVER_ART\<close> tag whose binary is the two bytes
  \<open>89 50\<close> starts with \<open>0x89 0x50\<close>, yet the item is emitted with indicator 13
  (JPEG), not 14 (PNG).
\<close>

theorem cover_two_bytes_counterexample:
  "serialize_tag_item (SimpleTag (Some ''COVER_ART'') None (Some [0x89, 0x50]) None False []) []
     = (MP4TAG_OK,
        [0, 0, 0, 26, 0x63, 0x6F, 0x76, 0x72, 0, 0, 0, 18, 0x64, 0x61, 0x74, 0x61,
         0, 0, 0, 13, 0, 0, 0, 0, 0x89, 0x50])
   \<and> MP4_DATA_JPEG = 13 \<and> MP4_DATA_PNG = 14"
  by (simp add: encode_eval)

lemma covr_distinct:
  "MP4_TAG_COVR \<noteq> 0" "MP4_TAG_COVR \<noteq> MP4_TAG_TRKN" "MP4_TAG_COVR \<noteq> MP4_TAG_DISK"
  "MP4_TAG_COVR \<noteq> MP4_TAG_TMPO" "MP4_TAG_COVR \<noteq> MP4_TAG_CPIL" "MP4_TAG_COVR \<noteq> MP4_TAG_PGAP"
  by (simp_all add: fourcc_eval)

text \<open>
  Claim C7, amended.  For a simple tag whose name resolves to \<open>covr\<close>: with no binary
  or an empty one nothing is appended to the buffer; otherwise one item box is appended
  whose indicator is PNG (14) when the binary has at least four bytes and starts with
  \<open>0x89 0x50\<close>, and JPEG (13) in every other case.
\<close>

theorem cover_art_indicator:
  assumes "mp4_tag_name_to_fourcc (st_name st) = MP4_TAG_COVR"
  shows "serialize_tag_item st buf =
     (case st_binary st of
        None \<Rightarrow> (MP4TAG_OK, buf)
      | Some bin \<Rightarrow>
          if bin = [] then (MP4TAG_OK, buf)
          else (MP4TAG_OK,
                buf @ be32_bytes (24 + of_nat (length bin)) @ be32_bytes MP4_TAG_COVR
                    @ be32_bytes (16 + of_nat (length bin)) @ be32_bytes MP4_BOX_DATA
                    @ be32_bytes (if 4 \<le> length bin \<and> bin ! 0 = 0x89 \<and> bin ! 1 = 0x50
                                  then MP4_DATA_PNG else MP4_DATA_JPEG)
                    @ be32_bytes 0 @ bin))"
  using assms
  by (simp add: serialize_tag_item_def item_content_def covr_distinct Let_def
                mp4_write_box_header_def buffer_append_be32_def
           split: option.splits)

theorem cover_art_indicator_witness:
  "mp4_tag_name_to_fourcc (Some ''covr'') = MP4_TAG_COVR
   \<and> serialize_tag_item
        (SimpleTag (Some ''covr'') None (Some [0x89, 0x50, 0x4E, 0x47]) None False []) []
     = (MP4TAG_OK,
        [0, 0, 0, 28, 0x63, 0x6F, 0x76, 0x72, 0, 0, 0, 20, 0x64, 0x61, 0x74, 0x61,
         0, 0, 0, 14, 0, 0, 0, 0, 0x89, 0x50, 0x4E, 0x47])"
proof -
  have h: "mp4_tag_name_to_fourcc
             (st_name (SimpleTag (Some ''covr'') None (Some [0x89, 0x50, 0x4E, 0x47]) None False []))
           = MP4_TAG_COVR"
    by (simp add: name_eval)
  have bytes:
    "[] @ be32_bytes (24 + of_nat (length [0x89, 0x50, 0x4E, 0x47 :: byte])) @ be32_bytes MP4_TAG_COVR
        @ be32_bytes (16 + of_nat (length [0x89, 0x50, 0x4E, 0x47 :: byte])) @ be32_bytes MP4_BOX_DATA
        @ be32_bytes (if 4 \<le> length [0x89, 0x50, 0x4E, 0x47 :: byte] \<and> [0x89, 0x50, 0x4E, 0x47 :: byte] ! 0 = 0x89 \<and> [0x89, 0x50, 0x4E, 0x47 :: byte] ! 1 = 0x50
                                  then MP4_DATA_PNG else MP4_DATA_JPEG)
        @ be32_bytes 0 @ [0x89, 0x50, 0x4E, 0x47]
     = [0, 0, 0, 28, 0x63, 0x6F, 0x76, 0x72, 0, 0, 0, 20, 0x64, 0x61, 0x74, 0x61,
         0, 0, 0, 14, 0, 0, 0, 0, 0x89, 0x50, 0x4E, 0x47]"
    by (simp add: be32_bytes_def fourcc_eval data_type_defs)
  from cover_art_indicator [OF h, of "[]"] h bytes show ?thesis by simp
qed

section \<open>One-byte payloads of integer atoms\<close>

text \<open>
  Claim C8, counterexample.  A \<open>cpil\<close> item whose \<open>data\<close> box carries the single
  payload byte 2 decodes to the string \<open>"2"\<close>, which is neither \<open>"0"\<close> nor \<open>"1"\<close>.
\<close>

theorem cpil_byte_two_counterexample:
  "fst (parse_ilst_item
          \<lparr>fbytes = [0, 0, 0, 25, 0x63, 0x70, 0x69, 0x6C, 0, 0, 0, 17, 0x64, 0x61, 0x74, 0x61,
                     0, 0, 0, 21, 0, 0, 0, 0, 2],
           fh_writable = False, pos = 8, faults = []\<rparr>
          (mk_box MP4_TAG_CPIL 0 25 8))
     = Inr (SimpleTag (Some ''COMPILATION'') (Some ''2'') None None True [])"
  by (simp add: parse_ilst_item_def parse_item_loop.simps parse_data_box_def
                mp4_read_box_header_def io_defs Let_def mk_box_def wrap_int64_def
                int_atom_value_def
                is_int_atom_def name_eval dec_str.simps digit_char_def)

text \<open>
  Claim C8, amended.  For each of the atoms \<open>trkn\<close>, \<open>disk\<close>, \<open>tmpo\<close>, \<open>cpil\<close>,
  \<open>pgap\<close>, whatever the type indicator and the locale, an item whose \<open>data\<close> payload is
  the single byte \<open>b\<close> decodes to the decimal digits of \<open>b\<close> (\<open>"0"\<close> to \<open>"255"\<close>);
  the result is \<open>"0"\<close> or \<open>"1"\<close> exactly when \<open>b\<close> is 0 or 1.  The file holds the item
  box at offset 0, followed by any bytes \<open>rest\<close>; the first conjunct is the header that
  \<open>mp4_read_box_header\<close> finds there.
\<close>

theorem one_byte_int_atom_decimal:
  assumes "is_int_atom t"
  shows "fst (mp4_read_box_header
           \<lparr>fbytes = be32_bytes 25 @ be32_bytes t @ be32_bytes 17 @ be32_bytes MP4_BOX_DATA
                      @ be32_bytes ind @ be32_bytes loc @ [b] @ rest,
            fh_writable = w, pos = 0, faults = []\<rparr>) = Inr (mk_box t 0 25 8)
       \<and> fst (parse_ilst_item
           \<lparr>fbytes = be32_bytes 25 @ be32_bytes t @ be32_bytes 17 @ be32_bytes MP4_BOX_DATA
                      @ be32_bytes ind @ be32_bytes loc @ [b] @ rest,
            fh_writable = w, pos = 8, faults = []\<rparr> (mk_box t 0 25 8))
          = Inr (SimpleTag (Some (item_name t)) (Some (dec_str (unat b))) None None True [])
       \<and> ((dec_str (unat b) = ''0'' \<or> dec_str (unat b) = ''1'') \<longleftrightarrow> b \<le> 1)"
proof -
  have hdr: "fst (mp4_read_box_header
           \<lparr>fbytes = be32_bytes 25 @ be32_bytes t @ be32_bytes 17 @ be32_bytes MP4_BOX_DATA
                      @ be32_bytes ind @ be32_bytes loc @ [b] @ rest,
            fh_writable = w, pos = 0, faults = []\<rparr>) = Inr (mk_box t 0 25 8)"
    by (simp add: mp4_read_box_header_def io_defs be32_be32_bytes Let_def)
  have item: "fst (parse_ilst_item
           \<lparr>fbytes = be32_bytes 25 @ be32_bytes t @ be32_bytes 17 @ be32_bytes MP4_BOX_DATA
                      @ be32_bytes ind @ be32_bytes loc @ [b] @ rest,
            fh_writable = w, pos = 8, faults = []\<rparr> (mk_box t 0 25 8))
          = Inr (SimpleTag (Some (item_name t)) (Some (dec_str (unat b))) None None True [])"
    using assms
    apply (simp add: parse_ilst_item_def mk_box_def)
    apply (subst parse_item_loop.simps)
    apply (simp add: mp4_read_box_header_def io_defs be32_be32_bytes Let_def mk_box_def
                     wrap_int64_def parse_data_box_def int_atom_value_def)
    done
  have digits: "(dec_str (unat b) = ''0'' \<or> dec_str (unat b) = ''1'') \<longleftrightarrow> b \<le> 1"
  proof -
    have "dec_str (unat b) = ''0'' \<longleftrightarrow> unat b = 0"
      using digit_char_eq_iff [of "unat b" 0]
      by (auto simp: dec_str_single digit_char_def)
    moreover have "dec_str (unat b) = ''1'' \<longleftrightarrow> unat b = 1"
      using digit_char_eq_iff [of "unat b" 1]
      by (auto simp: dec_str_single digit_char_def)
    moreover have "b \<le> 1 \<longleftrightarrow> unat b = 0 \<or> unat b = 1"
      by (auto simp: word_le_nat_alt)
    ultimately show ?thesis by simp
  qed
  from hdr item digits show ?thesis by simp
qed

theorem one_byte_int_atom_decimal_witness:
  "is_int_atom MP4_TAG_PGAP
   \<and> fst (parse_ilst_item
        \<lparr>fbytes = [0, 0, 0, 25, 0x70, 0x67, 0x61, 0x70, 0, 0, 0, 17, 0x64, 0x61, 0x74, 0x61,
                   0, 0, 0, 21, 0, 0, 0, 0, 1],
         fh_writable = False, pos = 8, faults = []\<rparr>
        (mk_box MP4_TAG_PGAP 0 25 8))
     = Inr (SimpleTag (Some ''GAPLESS'') (Some ''1'') None None True [])"
proof -
  have h: "is_int_atom MP4_TAG_PGAP" by (simp add: is_int_atom_def)
  have n: "item_name MP4_TAG_PGAP = ''GAPLESS''" by (simp add: name_eval)
  have d: "dec_str (unat (1 :: byte)) = ''1''" by (simp add: dec_str.simps digit_char_def)
  have bytes:
    "be32_bytes 25 @ be32_bytes MP4_TAG_PGAP @ be32_bytes 17 @ be32_bytes MP4_BOX_DATA
       @ be32_bytes 21 @ be32_bytes 0 @ [1] @ []
     = [0, 0, 0, 25, 0x70, 0x67, 0x61, 0x70, 0, 0, 0, 17, 0x64, 0x61, 0x74, 0x61,
        0, 0, 0, 21, 0, 0, 0, 0, 1]"
    by (simp add: be32_bytes_def fourcc_eval)
  note inst = one_byte_int_atom_decimal [OF h, of 21 0 1 "[]" False, unfolded bytes n d]
  from inst h show ?thesis by simp
qed

section \<open>Decoding the item list\<close>






section \<open>Looking up a tag by name\<close>

text \<open>
  Claim C10.  When every simple tag of the collection whose name matches the requested
  one has no textual value, \<open>mp4tag_read_tag_string\<close> returns \<open>TagNotFound\<close> and leaves
  the buffer alone.  A \<open>covr\<close> item whose indicator is JPEG or PNG is such a tag: it
  decodes to a simple tag without value.
\<close>

theorem read_tag_string_skips_binary:
  "(name \<noteq> None \<and> 0 < sz \<and> mp4tag_read_tags env ctx = (Inr coll, ctx1) \<and>
    (\<forall>st \<in> set (concat (map simple_tags (tags coll))).
        str_casecmp (st_name st) name = 0 \<longrightarrow> st_value st = None) \<longrightarrow>
      mp4tag_read_tag_string env ctx name sz = (MP4TAG_ERR_TAG_NOT_FOUND, None, ctx1))
   \<and> (box_type item = MP4_TAG_COVR \<and> file_read fh 8 = (Inr hdr, fh1) \<and>
       (be32 (take 4 hdr) = MP4_DATA_JPEG \<or> be32 (take 4 hdr) = MP4_DATA_PNG) \<and>
       parse_data_box fh item child = (Inr st, fh2) \<longrightarrow>
         st_value st = None)"
proof -
  have a: "name \<noteq> None \<and> 0 < sz \<and> mp4tag_read_tags env ctx = (Inr coll, ctx1) \<and>
    (\<forall>st \<in> set (concat (map simple_tags (tags coll))).
        str_casecmp (st_name st) name = 0 \<longrightarrow> st_value st = None) \<longrightarrow>
      mp4tag_read_tag_string env ctx name sz = (MP4TAG_ERR_TAG_NOT_FOUND, None, ctx1)"
  proof (intro impI, elim conjE)
    assume n: "name \<noteq> None" "0 < sz" and rt: "mp4tag_read_tags env ctx = (Inr coll, ctx1)"
      and bin: "\<forall>st \<in> set (concat (map simple_tags (tags coll))).
        str_casecmp (st_name st) name = 0 \<longrightarrow> st_value st = None"
    have "find (\<lambda>st. st_name st \<noteq> None \<and> st_value st \<noteq> None \<and>
                       str_casecmp (st_name st) name = 0)
               (concat (map simple_tags (tags coll))) = None"
      using bin by (auto simp: find_None_iff)
    with n rt show "mp4tag_read_tag_string env ctx name sz = (MP4TAG_ERR_TAG_NOT_FOUND, None, ctx1)"
      by (simp add: mp4tag_read_tag_string_def)
  qed
  have covr: "\<not> is_int_atom MP4_TAG_COVR"
    by (simp add: is_int_atom_def fourcc_eval)
  have dt: "MP4_DATA_JPEG \<noteq> MP4_DATA_UTF8" "MP4_DATA_JPEG \<noteq> MP4_DATA_IMPLICIT"
     "MP4_DATA_JPEG \<noteq> MP4_DATA_INTEGER" "MP4_DATA_PNG \<noteq> MP4_DATA_UTF8"
     "MP4_DATA_PNG \<noteq> MP4_DATA_IMPLICIT" "MP4_DATA_PNG \<noteq> MP4_DATA_INTEGER"
    by (simp_all add: MP4_DATA_JPEG_def MP4_DATA_PNG_def MP4_DATA_UTF8_def
                      MP4_DATA_IMPLICIT_def MP4_DATA_INTEGER_def)
  have b: "box_type item = MP4_TAG_COVR \<and> file_read fh 8 = (Inr hdr, fh1) \<and>
       (be32 (take 4 hdr) = MP4_DATA_JPEG \<or> be32 (take 4 hdr) = MP4_DATA_PNG) \<and>
       parse_data_box fh item child = (Inr st, fh2) \<longrightarrow> st_value st = None"
    using covr dt
    by (auto simp: parse_data_box_def Let_def split: if_splits prod.splits sum.splits)
  from a b show ?thesis by blast
qed

theorem read_tag_string_skips_binary_witness:
  "mp4tag_read_tag_string allocs_ok (sample_ctx False []) (Some ''COVER_ART'') 64
     = (MP4TAG_ERR_TAG_NOT_FOUND, None,
        (sample_ctx False [])
          \<lparr>ctx_fh := Some ((sample_handle False [])\<lparr>pos := 159\<rparr>),
           cached_tags := Some (album_collection [sample_title, sample_cover])\<rparr>)
   \<and> st_value sample_cover = None
   \<and> fst (mp4tag_read_tag_string allocs_ok (sample_ctx False []) (Some ''title'') 64) = MP4TAG_OK"
proof -
  let ?ctx1 = "(sample_ctx False [])
          \<lparr>ctx_fh := Some ((sample_handle False [])\<lparr>pos := 159\<rparr>),
           cached_tags := Some (album_collection [sample_title, sample_cover])\<rparr>"
  have pre: "Some ''COVER_ART'' \<noteq> None \<and> (0::nat) < 64 \<and>
      mp4tag_read_tags allocs_ok (sample_ctx False [])
        = (Inr (album_collection [sample_title, sample_cover]), ?ctx1) \<and>
      (\<forall>st \<in> set (concat (map simple_tags
                                 (tags (album_collection [sample_title, sample_cover])))).
          str_casecmp (st_name st) (Some ''COVER_ART'') = 0 \<longrightarrow> st_value st = None)"
    by (simp add: sample_ctx_def mp4tag_read_tags_def ilst_eval)
  have dec: "box_type (mk_box MP4_TAG_COVR 131 28 8) = MP4_TAG_COVR \<and>
      file_read ((sample_handle False [])\<lparr>pos := 147\<rparr>) 8
        = (Inr [0, 0, 0, 13, 0, 0, 0, 0], (sample_handle False [])\<lparr>pos := 155\<rparr>) \<and>
      (be32 (take 4 [0, 0, 0, 13, 0, 0, 0, 0]) = MP4_DATA_JPEG \<or>
       be32 (take 4 [0, 0, 0, 13, 0, 0, 0, 0]) = MP4_DATA_PNG) \<and>
      parse_data_box ((sample_handle False [])\<lparr>pos := 147\<rparr>) (mk_box MP4_TAG_COVR 131 28 8)
          (mk_box MP4_BOX_DATA 139 20 8)
        = (Inr sample_cover, (sample_handle False [])\<lparr>pos := 159\<rparr>)"
    by (simp add: ilst_eval)
  have ok: "fst (mp4tag_read_tag_string allocs_ok (sample_ctx False []) (Some ''title'') 64) = MP4TAG_OK"
    by (simp add: sample_ctx_def mp4tag_read_tag_string_def mp4tag_read_tags_def str_copy_def
                  ilst_eval)
  note a = read_tag_string_skips_binary [THEN conjunct1, rule_format, OF pre]
  note b = read_tag_string_skips_binary [THEN conjunct2, rule_format, OF dec]
  from a b ok show ?thesis by simp
qed

section \<open>The footprint of an in-place write\<close>

lemma overlap_bytes:
  "overlap_file =
     [0, 0, 0, 16, 102, 116, 121, 112, 77, 52, 65, 32, 0, 0, 0, 0, 0, 0, 0, 44,
      109, 111, 111, 118, 0, 0, 0, 36, 117, 100, 116, 97, 0, 0, 0, 28, 109, 101,
      116, 97, 0, 0, 0, 0, 0, 0, 0, 8, 105, 108, 115, 116, 0, 0, 0, 20, 102,
      114, 101, 101, 0, 0, 0, 12, 109, 100, 97, 116, 1, 2, 3, 4]"
  by (simp add: overlap_file_def box_bytes_def mp4_write_box_header_def
                buffer_append_be32_def be32_bytes_def fourcc_eval)

text \<open>
  Claim C2, the failing input.  In \<open>overlap_file\<close> the \<open>meta\<close> box ends at offset 60, where
  an \<open>mdat\<close> box of 12 bytes begins, and the \<open>free\<close> box behind \<open>ilst\<close> declares 20 bytes
  although only the 8 bytes of its header lie inside \<open>meta\<close>.  \<open>mp4_parse_structure\<close>
  accepts the file and records 20 bytes of free space, so an empty \<open>ilst\<close> content fits
  (8 \<open>\<le>\<close> 8 + 20).  \<open>try_inplace\<close> succeeds and writes a \<open>free\<close> box of 20 bytes at offset
  52: the 12 bytes of \<open>mdat\<close> are replaced by zeros, and no \<open>mdat\<close> box is located at
  offset 60 any more.
\<close>

theorem inplace_overwrites_mdat:
  "mp4_parse_structure overlap_handle
     = (MP4TAG_OK, overlap_info, overlap_handle\<lparr>pos := 60\<rparr>)
   \<and> 8 + int (length ([] :: byte list))
       \<le> ilst_size overlap_info + free_after_ilst_size overlap_info
   \<and> meta_offset overlap_info + meta_size overlap_info = 60
   \<and> box_located overlap_file MP4_BOX_MDAT 60 12
   \<and> try_inplace overlap_info (overlap_handle\<lparr>pos := 60\<rparr>) []
     = (MP4TAG_OK, overlap_info\<lparr>mdat_offset := - 1, mdat_size := 0\<rparr>,
        \<lparr>fbytes = take 60 overlap_file @ replicate 12 0, fh_writable = True, pos = 60,
         faults = []\<rparr>)
   \<and> \<not> box_located (take 60 overlap_file @ replicate 12 0) MP4_BOX_MDAT 60 12"
  by (simp add: overlap_handle_def overlap_bytes overlap_info_def inplace_eval box_located_def)

section \<open>\<open>NoSpace\<close> never leaves \<open>mp4tag_write_tags\<close>\<close>

text \<open>
  Claim C1.  For an open, writable context and any collection (or none),
  \<open>mp4tag_write_tags\<close> never returns \<open>NoSpace\<close>.  Moreover, whenever the collection
  serializes and \<open>try_inplace\<close> fails on that content, with \<open>NoSpace\<close> or with any other
  code, the result of \<open>mp4tag_write_tags\<close> is that of the rewrite path: the code of
  \<open>mp4_tags_build_udta\<close> if that fails, and otherwise the result of \<open>rewrite_file\<close> run on
  the context as \<open>try_inplace\<close> left it.
\<close>

theorem write_tags_hides_no_space:
  assumes fh: "ctx_fh ctx = Some fh" and w: "writable ctx"
  shows "fst (mp4tag_write_tags env ctx tgs) \<noteq> MP4TAG_ERR_NO_SPACE
       \<and> (\<forall>content rc1 info1 fh1.
             mp4_tags_serialize_ilst tgs [] = (MP4TAG_OK, content) \<and>
             try_inplace (ctx_info ctx) fh content = (rc1, info1, fh1) \<and>
             rc1 \<noteq> MP4TAG_OK \<longrightarrow>
             mp4tag_write_tags env ctx tgs =
               (case mp4_tags_build_udta tgs [] of
                  (rc2, udta_buf) \<Rightarrow>
                    if rc2 \<noteq> MP4TAG_OK
                    then (rc2, (invalidate_cache ctx)\<lparr>ctx_fh := Some fh1, ctx_info := info1\<rparr>)
                    else rewrite_file env
                           ((invalidate_cache ctx)\<lparr>ctx_fh := Some fh1, ctx_info := info1\<rparr>)
                           fh1 udta_buf))"
proof (intro conjI allI impI)
  show "fst (mp4tag_write_tags env ctx tgs) \<noteq> MP4TAG_ERR_NO_SPACE"
    by (auto simp: mp4tag_write_tags_def Let_def fst_rewrite_file_not_no_space
             split: if_splits prod.splits option.splits
             dest: serialize_ilst_not_no_space build_udta_not_no_space)
next
  fix content rc1 info1 fh1
  assume a: "mp4_tags_serialize_ilst tgs [] = (MP4TAG_OK, content) \<and>
             try_inplace (ctx_info ctx) fh content = (rc1, info1, fh1) \<and>
             rc1 \<noteq> MP4TAG_OK"
  then have t: "tgs \<noteq> None"
    by (auto simp: mp4_tags_serialize_ilst_def split: option.splits)
  have "(if has_ilst (ctx_info ctx) then try_inplace (ctx_info ctx) fh content
         else (MP4TAG_ERR_NO_SPACE, ctx_info ctx, fh)) = (rc1, info1, fh1)"
    using a by (auto simp: try_inplace_def)
  with a t fh w show "mp4tag_write_tags env ctx tgs =
               (case mp4_tags_build_udta tgs [] of
                  (rc2, udta_buf) \<Rightarrow>
                    if rc2 \<noteq> MP4TAG_OK
                    then (rc2, (invalidate_cache ctx)\<lparr>ctx_fh := Some fh1, ctx_info := info1\<rparr>)
                    else rewrite_file env
                           ((invalidate_cache ctx)\<lparr>ctx_fh := Some fh1, ctx_info := info1\<rparr>)
                           fh1 udta_buf)"
    by (auto simp: mp4tag_write_tags_def Let_def invalidate_cache_def split: prod.splits)
qed

theorem write_tags_hides_no_space_witness:
  "mp4_tags_serialize_ilst (Some (album_collection [long_title])) []
     = (MP4TAG_OK, long_title_item)
   \<and> try_inplace sample_info (sample_handle True []) long_title_item
     = (MP4TAG_ERR_NO_SPACE, sample_info, sample_handle True [])
   \<and> fst (mp4tag_write_tags plain_env (sample_ctx True [])
            (Some (album_collection [long_title]))) \<noteq> MP4TAG_ERR_NO_SPACE
   \<and> mp4tag_write_tags plain_env (sample_ctx True []) (Some (album_collection [long_title]))
     = rewrite_file plain_env (sample_ctx True []) (sample_handle True []) long_title_udta
   \<and> fst (mp4tag_write_tags plain_env (sample_ctx True [])
            (Some (album_collection [long_title]))) = MP4TAG_OK"
proof -
  have fh: "ctx_fh (sample_ctx True []) = Some (sample_handle True [])"
    and w: "writable (sample_ctx True [])"
    and i: "ctx_info (sample_ctx True []) = sample_info"
    and c: "(invalidate_cache (sample_ctx True []))
              \<lparr>ctx_fh := Some (sample_handle True []), ctx_info := sample_info\<rparr>
            = sample_ctx True []"
    by (simp_all add: sample_ctx_def invalidate_cache_def)
  note th = write_tags_hides_no_space
              [OF fh w, of plain_env "Some (album_collection [long_title])"]
  have esc: "mp4tag_write_tags plain_env (sample_ctx True [])
               (Some (album_collection [long_title]))
             = rewrite_file plain_env (sample_ctx True []) (sample_handle True [])
                 long_title_udta"
    using th [THEN conjunct2, rule_format,
              of long_title_item MP4TAG_ERR_NO_SPACE sample_info "sample_handle True []"]
          serialize_long_title inplace_long_title
    by (simp add: i c build_udta_long_title)
  have ok: "fst (mp4tag_write_tags plain_env (sample_ctx True [])
                   (Some (album_collection [long_title]))) = MP4TAG_OK"
    using rewrite_long_title by (simp only: esc)
  from serialize_long_title inplace_long_title th [THEN conjunct1] esc ok
  show ?thesis by (intro conjI)
qed

end
